theory Spec2Isabelle
  imports Complex_Main "HOL-Library.Sublist" "HOL-Library.Multiset" "HOL-Library.Log_Nat"
begin

section \<open>Python library functions used by the verifiers\<close>

subsection \<open>Strings\<close>

text \<open>
  A \<open>str\<close> is a \<^typ>\<open>string\<close>: a list of characters, each of them a code point below
  256 (the Latin-1 range), so that lengths and slices count code points as Python does.
  \<open>str.lower\<close> sends the uppercase letters of that range (\<open>A\<close> to \<open>Z\<close>, and U+00C0 to
  U+00DE without the multiplication sign U+00D7) to the code point 32 above, and leaves
  every other code point of the range as it is.
\<close>

definition lower_char :: "char \<Rightarrow> char" where
  "lower_char c =
     (case map_of (zip (''ABCDEFGHIJKLMNOPQRSTUVWXYZ'' @
                        [CHR 0xC0, CHR 0xC1, CHR 0xC2, CHR 0xC3, CHR 0xC4, CHR 0xC5,
                         CHR 0xC6, CHR 0xC7, CHR 0xC8, CHR 0xC9, CHR 0xCA, CHR 0xCB,
                         CHR 0xCC, CHR 0xCD, CHR 0xCE, CHR 0xCF, CHR 0xD0, CHR 0xD1,
                         CHR 0xD2, CHR 0xD3, CHR 0xD4, CHR 0xD5, CHR 0xD6, CHR 0xD8,
                         CHR 0xD9, CHR 0xDA, CHR 0xDB, CHR 0xDC, CHR 0xDD, CHR 0xDE])
                       (''abcdefghijklmnopqrstuvwxyz'' @
                        [CHR 0xE0, CHR 0xE1, CHR 0xE2, CHR 0xE3, CHR 0xE4, CHR 0xE5,
                         CHR 0xE6, CHR 0xE7, CHR 0xE8, CHR 0xE9, CHR 0xEA, CHR 0xEB,
                         CHR 0xEC, CHR 0xED, CHR 0xEE, CHR 0xEF, CHR 0xF0, CHR 0xF1,
                         CHR 0xF2, CHR 0xF3, CHR 0xF4, CHR 0xF5, CHR 0xF6, CHR 0xF8,
                         CHR 0xF9, CHR 0xFA, CHR 0xFB, CHR 0xFC, CHR 0xFD, CHR 0xFE])) c of
        None \<Rightarrow> c
      | Some d \<Rightarrow> d)"

definition lower :: "string \<Rightarrow> string" where
  "lower s = map lower_char s"

text \<open>\<open>needle in hay\<close> on Python strings: the needle occurs as a contiguous slice.\<close>

fun contains :: "'a list \<Rightarrow> 'a list \<Rightarrow> bool" where
  "contains needle [] = (needle = [])"
| "contains needle (h # hay) = (prefix needle (h # hay) \<or> contains needle hay)"

definition startswith :: "string \<Rightarrow> string \<Rightarrow> bool" where
  "startswith s p = prefix p s"

text \<open>\<open>str(b)\<close> for a Python bool.\<close>

definition str_bool :: "bool \<Rightarrow> string" where
  "str_bool b = (if b then ''True'' else ''False'')"

subsection \<open>Exceptions\<close>

text \<open>
  Exceptions are values. \<open>str_exn\<close> is the text \<open>str(e)\<close> of an exception.
\<close>

datatype exn =
    TimeoutExpired_exn
  | OSError string
  | UnicodeDecodeError string
  | re_error string
  | TypeError string
  | OverflowError string
  | ZeroDivisionError string

fun str_exn :: "exn \<Rightarrow> string" where
  "str_exn TimeoutExpired_exn = ''Command timed out''"
| "str_exn (OSError m) = m"
| "str_exn (UnicodeDecodeError m) = m"
| "str_exn (re_error m) = m"
| "str_exn (TypeError m) = m"
| "str_exn (OverflowError m) = m"
| "str_exn (ZeroDivisionError m) = m"

subsection \<open>Floats\<close>

text \<open>
  A Python \<open>float\<close> is an IEEE 754 binary64 number. A finite one is the rational number it
  denotes (the sign of a zero is not kept). \<open>fl x\<close> is \<open>x\<close> rounded to the nearest
  number with a 53-bit significand, ties to the even significand, with gradual underflow
  below \<open>pow2 (- 1022)\<close> and no bound on the exponent above. An arithmetic operation on
  floats is the exact operation followed by \<open>fl\<close>; it overflows when that result lies
  beyond \<open>float_max\<close>, the largest finite float.
\<close>

definition round_half_even :: "rat \<Rightarrow> int" where
  "round_half_even x =
     (let f = \<lfloor>x\<rfloor>; d = x - of_int f
      in if d < 1 / 2 then f else if 1 / 2 < d then f + 1 else if even f then f else f + 1)"

definition pow2 :: "int \<Rightarrow> rat" where
  "pow2 k = (if 0 \<le> k then 2 ^ nat k else 1 / 2 ^ nat (- k))"

text \<open>
  \<open>floor_log2 x\<close>, for \<open>x > 0\<close>: the exponent \<open>e\<close> with \<open>pow2 e \<le> x < pow2 (e + 1)\<close>, from the bit
  lengths of the numerator and the denominator.
\<close>

definition floor_log2 :: "rat \<Rightarrow> int" where
  "floor_log2 x =
     (let d = bitlen (fst (quotient_of x)) - bitlen (snd (quotient_of x))
      in if pow2 d \<le> x then d else d - 1)"

text \<open>The exponent of the unit in the last place of the floats around \<open>x\<close>.\<close>

definition ulp_exp :: "rat \<Rightarrow> int" where
  "ulp_exp x = max (floor_log2 \<bar>x\<bar>) (- 1022) - 52"

definition fl :: "rat \<Rightarrow> rat" where
  "fl x =
     (if x = 0 then 0
      else of_int (round_half_even (x / pow2 (ulp_exp x))) * pow2 (ulp_exp x))"

definition float_max :: rat where
  "float_max = (2 ^ 53 - 1) * 2 ^ 971"

text \<open>A float that may be infinite: the value of a product that can overflow.\<close>

datatype pyfloat = Finite rat | PosInf | NegInf

text \<open>
  \<open>a / b\<close> on two \<open>int\<close>s: the correctly rounded quotient, \<open>ZeroDivisionError\<close> for a zero
  divisor and \<open>OverflowError\<close> when the rounded quotient is beyond the largest float.
\<close>

definition int_truediv :: "int \<Rightarrow> int \<Rightarrow> exn + rat" where
  "int_truediv a b =
     (if b = 0 then Inl (ZeroDivisionError ''division by zero'')
      else let q = fl (of_int a / of_int b)
           in if float_max < \<bar>q\<bar>
              then Inl (OverflowError ''integer division result too large for a float'')
              else Inr q)"

text \<open>\<open>x * y\<close> on two finite floats: an overflow gives an infinity and does not raise.\<close>

definition float_mul :: "rat \<Rightarrow> rat \<Rightarrow> pyfloat" where
  "float_mul x y =
     (let p = fl (x * y)
      in if float_max < p then PosInf else if p < - float_max then NegInf else Finite p)"

text \<open>
  \<open>round(x, 1)\<close> on a finite float: the float nearest to the decimal with one digit after
  the point that is nearest to \<open>x\<close>, the even digit on a tie. An infinity rounds to itself.
\<close>

definition py_round1 :: "rat \<Rightarrow> rat" where
  "py_round1 x = fl (of_int (round_half_even (x * 10)) / 10)"

fun float_round1 :: "pyfloat \<Rightarrow> pyfloat" where
  "float_round1 (Finite x) = Finite (py_round1 x)"
| "float_round1 PosInf = PosInf"
| "float_round1 NegInf = NegInf"

text \<open>
  The builtin \<open>sum\<close> over a list of floats, as CPython up to 3.11 computes it: one float
  addition per element, from left to right, starting from \<open>0\<close>.
\<close>

definition py_sum :: "rat list \<Rightarrow> rat" where
  "py_sum xs = foldl (\<lambda>s x. fl (s + x)) 0 xs"

section \<open>generated-datasets/verify\_solution.py: SolutionVerifier\<close>

subsection \<open>Result dictionaries and the score summary\<close>

text \<open>
  Every entry of \<open>self.results\<close> is a dict with the five keys below, built either by
  \<open>_check_canary_token\<close> or by \<open>_execute_check\<close>.
\<close>

record check_dict =
  name :: string
  description :: string
  passed :: bool
  required :: bool
  message :: string

datatype status = PASS | FAIL

text \<open>
  The summary returned by \<open>_calculate_score\<close>. The nested dicts \<open>automated_checks\<close>
  and \<open>required_checks\<close> are flattened: \<open>ac_\<close> and \<open>rc_\<close> prefix their keys. The
  keys \<open>task_id\<close>, \<open>category\<close> and \<open>difficulty\<close>, copied from the task descriptor,
  are left out. \<open>overall_status\<close> is one of the strings \<open>'PASS'\<close> and \<open>'FAIL'\<close>.
\<close>

record summary =
  ac_total :: nat
  ac_passed :: nat
  ac_failed :: nat
  ac_score_percentage :: rat
  rc_total :: nat
  rc_passed :: nat
  rc_all_passed :: bool
  overall_status :: status
  details :: "check_dict list"

text \<open>
  \<open>auto_score = (passed / total * 100) if total > 0 else 0\<close>: the quotient of two
  \<open>int\<close>s is a float, at most 1, and its product with 100 is a float, at most 100, so
  neither operation overflows.
\<close>

definition auto_score :: "check_dict list \<Rightarrow> rat" where
  "auto_score results =
     (let total = length results;
          n_passed = length (filter passed results)
      in if total > 0 then fl (fl (of_nat n_passed / of_nat total) * 100) else 0)"

text \<open>\<open>all_required_passed = (required_passed == required_total) if required_total > 0 else True\<close>\<close>

definition all_required_passed :: "check_dict list \<Rightarrow> bool" where
  "all_required_passed results =
     (let required_total = length (filter required results);
          required_passed = length (filter (\<lambda>r. required r \<and> passed r) results)
      in if required_total > 0 then required_passed = required_total else True)"

definition SolutionVerifier_calculate_score :: "check_dict list \<Rightarrow> summary" where
  "SolutionVerifier_calculate_score results =
     (let total = length results;
          n_passed = length (filter passed results);
          required_total = length (filter required results);
          required_passed = length (filter (\<lambda>r. required r \<and> passed r) results)
      in \<lparr> ac_total = total,
           ac_passed = n_passed,
           ac_failed = total - n_passed,
           ac_score_percentage = py_round1 (auto_score results),
           rc_total = required_total,
           rc_passed = required_passed,
           rc_all_passed = all_required_passed results,
           overall_status =
             (if auto_score results \<ge> 70 \<and> all_required_passed results then PASS else FAIL),
           details = results \<rparr>)"

subsection \<open>The environment a verification run reads\<close>

text \<open>
  What a path names: nothing; something that exists but whose read raises an
  \<open>OSError\<close> (a directory, a file without read permission); a file of valid UTF-8
  text; a file with bytes that are not valid UTF-8, given by the text that decoding
  with \<open>errors='ignore'\<close> leaves; or a path that cannot be examined at all: \<open>stat\<close> and
  \<open>open\<close> raise an \<open>OSError\<close> whose errno is none of ENOENT, ENOTDIR, EBADF and ELOOP
  (a name that is too long, a parent directory without search permission). \<open>Unreadable\<close>
  and \<open>Inaccessible\<close> carry the text of the error.
\<close>

datatype fs_entry = Missing | Unreadable string | Text string | Garbled string | Inaccessible string

text \<open>
  \<open>subprocess.run(target, shell=True, capture_output=True, text=True, timeout=10, cwd=...)\<close>
  either completes with stdout and stderr or raises.
\<close>

datatype cmd_result = Completed string string | Raised exn

datatype re_flag = MULTILINE | DOTALL

text \<open>
  The entries below the solution directory, as \<open>Path.rglob('*')\<close> walks them. A regular
  file carries the text \<open>read_text(encoding='utf-8', errors='ignore')\<close> returns, or
  \<open>None\<close> when that read raises; \<open>OtherNode\<close> is an entry that is neither a regular
  file nor a directory.
\<close>

datatype node = RegFile "string option" | OtherNode | Directory "node list"

text \<open>
  The regular-expression engine (\<open>re.search\<close>), the shell and the file system are not
  part of the repository: they are parameters of the model. \<open>re_search pattern content
  flags\<close> is \<open>Inr (bool(re.search(pattern, content, flags)))\<close>, or \<open>Inl\<close> of the
  \<open>re.error\<close> a malformed pattern raises.
\<close>

record env =
  run_shell :: "string \<Rightarrow> cmd_result"
  fs :: "string \<Rightarrow> fs_entry"
  re_search :: "string \<Rightarrow> string \<Rightarrow> re_flag set \<Rightarrow> exn + bool"
  tree :: node

text \<open>
  \<open>Path.exists()\<close>: \<open>False\<close> when \<open>stat\<close> reports that nothing is there, \<open>True\<close> when
  \<open>stat\<close> succeeds, and the \<open>OSError\<close> of \<open>stat\<close> raised again in every other case.
\<close>

definition path_exists :: "env \<Rightarrow> string \<Rightarrow> exn + bool" where
  "path_exists e p =
     (case fs e p of
        Missing \<Rightarrow> Inr False
      | Unreadable m \<Rightarrow> Inr True
      | Text s \<Rightarrow> Inr True
      | Garbled s \<Rightarrow> Inr True
      | Inaccessible m \<Rightarrow> Inl (OSError m))"

text \<open>\<open>Path.read_text(encoding='utf-8', errors='ignore')\<close>\<close>

definition read_text_ignore :: "env \<Rightarrow> string \<Rightarrow> exn + string" where
  "read_text_ignore e p =
     (case fs e p of
        Missing \<Rightarrow> Inl (OSError ''No such file or directory'')
      | Unreadable m \<Rightarrow> Inl (OSError m)
      | Text s \<Rightarrow> Inr s
      | Garbled s \<Rightarrow> Inr s
      | Inaccessible m \<Rightarrow> Inl (OSError m))"


subsection \<open>Task descriptor\<close>



subsection \<open>\_check\_canary\_token\<close>

definition sq :: string where
  "sq = [CHR 0x27]"



subsection \<open>\_execute\_check\<close>

definition initial_result :: "string \<Rightarrow> string \<Rightarrow> check_dict" where
  "initial_result ct tgt =
     \<lparr> name = ct @ ''_'' @ take 20 tgt,
       description = ct @ '' check for '' @ tgt,
       passed = False,
       required = False,
       message = [] \<rparr>"

text \<open>
  \<open>Path(target)\<close> when the target starts with \<open>/\<close>, \<open>self.solution_dir / target\<close>
  otherwise.
\<close>

definition resolve :: "string \<Rightarrow> string \<Rightarrow> string" where
  "resolve solution_dir tgt =
     (if startswith tgt ''/'' then tgt else solution_dir @ ''/'' @ tgt)"

definition looks_like_command :: "string \<Rightarrow> bool" where
  "looks_like_command tgt =
     list_ex (\<lambda>cmd. contains cmd tgt) [''cat '', ''grep '', ''echo '', ''||'', ''&&'', ''2>'']"

text \<open>
  The first half of the \<open>output_contains\<close> branch: the content a command gives, and the
  result dict with the message an \<open>except\<close> clause wrote.
\<close>

definition command_content :: "env \<Rightarrow> string \<Rightarrow> check_dict \<Rightarrow> string option \<times> check_dict" where
  "command_content e tgt result =
     (if looks_like_command tgt then
        (case run_shell e tgt of
           Completed out err \<Rightarrow> (Some (out @ err), result)
         | Raised x \<Rightarrow>
             if x = TimeoutExpired_exn
             then (None, result\<lparr>message := ''Command timed out: '' @ take 50 tgt\<rparr>)
             else (None, result\<lparr>message := ''Command failed: '' @ str_exn x\<rparr>))
      else (None, result))"

text \<open>\<open>if file_path.exists(): content = file_path.read_text(...)\<close>, else nothing read.\<close>

definition read_if_exists :: "env \<Rightarrow> string \<Rightarrow> exn + string option" where
  "read_if_exists e p =
     (case path_exists e p of
        Inl x \<Rightarrow> Inl x
      | Inr ex \<Rightarrow>
          if ex then
            (case read_text_ignore e p of Inl x \<Rightarrow> Inl x | Inr s \<Rightarrow> Inr (Some s))
          else Inr None)"

text \<open>
  The body of the \<open>try\<close> block. \<open>Inl\<close> is an exception leaving the block; no key other
  than \<open>message\<close> is assigned before a call that can raise, so the handler sees
  \<open>passed = False\<close>.
\<close>

definition execute_body :: "env \<Rightarrow> string \<Rightarrow> string \<Rightarrow> string \<Rightarrow> string \<Rightarrow> exn + check_dict" where
  "execute_body e solution_dir ct tgt expd =
     (let result = initial_result ct tgt in
      if ct = ''file_exists'' then
        (case path_exists e (resolve solution_dir tgt) of
           Inl x \<Rightarrow> Inl x
         | Inr ex \<Rightarrow>
             Inr (result\<lparr>passed := (lower (str_bool ex) = lower expd),
                         message := ''File '' @ tgt @ '' exists: '' @ str_bool ex\<rparr>))
      else if ct = ''output_contains'' then
        (case command_content e tgt result of
           (content0, result1) \<Rightarrow>
             (case (case content0 of
                      None \<Rightarrow> read_if_exists e (resolve solution_dir tgt)
                    | Some c \<Rightarrow> Inr (Some c)) of
                Inl x \<Rightarrow> Inl x
              | Inr content \<Rightarrow>
                  (case content of
                     Some c \<Rightarrow>
                       if c \<noteq> [] then
                         (let p = contains (lower expd) (lower c)
                          in Inr (result1\<lparr>passed := p,
                                          message := sq @ expd @ sq @ '' found: '' @ str_bool p\<rparr>))
                       else Inr (result1\<lparr>message := ''Could not get content from: '' @ take 50 tgt\<rparr>)
                   | None \<Rightarrow>
                       Inr (result1\<lparr>message := ''Could not get content from: '' @ take 50 tgt\<rparr>))))
      else if ct = ''content_contains'' then
        (case read_if_exists e (resolve solution_dir tgt) of
           Inl x \<Rightarrow> Inl x
         | Inr (Some c) \<Rightarrow>
             Inr (result\<lparr>passed := contains expd c,
                         message := ''Content check for '' @ sq @ expd @ sq\<rparr>)
         | Inr None \<Rightarrow> Inr (result\<lparr>message := ''File '' @ tgt @ '' not found''\<rparr>))
      else if ct = ''regex_match'' then
        (case read_if_exists e (resolve solution_dir tgt) of
           Inl x \<Rightarrow> Inl x
         | Inr (Some c) \<Rightarrow>
             (case re_search e expd c {} of
                Inl x \<Rightarrow> Inl x
              | Inr m \<Rightarrow>
                  Inr (result\<lparr>passed := m,
                              message := ''Regex '' @ sq @ take 30 expd @ sq @ '' match: '' @ str_bool m\<rparr>))
         | Inr None \<Rightarrow> Inr (result\<lparr>message := ''File '' @ tgt @ '' not found''\<rparr>))
      else Inr (result\<lparr>message := ''Unknown check type: '' @ ct\<rparr>))"

text \<open>
  \<open>_execute_check\<close>: the body under \<open>try\<close>, and \<open>except Exception as e\<close> writing the
  message. The result type keeps a place for an exception that would leave the function.
\<close>

definition SolutionVerifier_execute_check ::
  "env \<Rightarrow> string \<Rightarrow> string \<Rightarrow> string \<Rightarrow> string \<Rightarrow> exn + check_dict" where
  "SolutionVerifier_execute_check e solution_dir ct tgt expd =
     (case execute_body e solution_dir ct tgt expd of
        Inr r \<Rightarrow> Inr r
      | Inl x \<Rightarrow> Inr ((initial_result ct tgt)\<lparr>message := ''Error: '' @ str_exn x\<rparr>))"

subsection \<open>\_run\_automated\_checks and verify\<close>



subsection \<open>Inputs used in examples, and the specification's formulas\<close>

text \<open>
  The specification's condition for a \<open>file_exists\<close> check,
  \<open>Path(target).exists() == (expected.lower() == "true")\<close>, written from the
  specification's words for comparison with the code.
\<close>

definition spec_file_exists_passes :: "bool \<Rightarrow> string \<Rightarrow> bool" where
  "spec_file_exists_passes ex expd = (ex = (lower expd = ''true''))"

definition env_empty :: env where
  "env_empty = \<lparr> run_shell = (\<lambda>c. Completed [] []),
                 fs = (\<lambda>p. Missing),
                 re_search = (\<lambda>p c f. Inr (contains p c)),
                 tree = Directory [] \<rparr>"

definition env_report :: env where
  "env_report = \<lparr> run_shell = (\<lambda>c. Completed [] []),
                 fs = (\<lambda>p. if p = ''sol/report.txt'' then Text ''done'' else Missing),
                 re_search = (\<lambda>p c f. Inr (contains p c)),
                 tree = Directory [RegFile (Some ''done'')] \<rparr>"

definition env_timeout :: env where
  "env_timeout = \<lparr> run_shell = (\<lambda>c. Raised TimeoutExpired_exn),
                   fs = (\<lambda>p. if p = ''sol/cat x'' then Text ''status 502''
                              else if p = ''sol/cat locked'' then Unreadable ''Permission denied''
                              else Missing),
                   re_search = (\<lambda>p c f. Inr (contains p c)),
                   tree = Directory [] \<rparr>"

definition env_analysis :: env where
  "env_analysis = \<lparr> run_shell = (\<lambda>c. if c = ''cat analysis.txt''
                                       then Completed ''status_code: 502'' [] else Raised (OSError ''failed'')),
                    fs = (\<lambda>p. if p = ''sol/analysis.txt'' then Text ''status_code: 502'' else Missing),
                    re_search = (\<lambda>p c f. Inr (contains p c)),
                    tree = Directory [RegFile (Some ''status_code: 502'')] \<rparr>"



definition env_denied :: env where
  "env_denied = \<lparr> run_shell = (\<lambda>c. Raised (OSError ''[Errno 12] Cannot allocate memory'')),
                  fs = (\<lambda>p. if p = ''/srv/api/config.py'' then Unreadable ''[Errno 13] Permission denied''
                             else if p = ''sol/vault/key.txt'' then Inaccessible ''[Errno 13] Permission denied''
                             else if p = ''sol/notes'' then Unreadable ''[Errno 21] Is a directory''
                             else Missing),
                  re_search = (\<lambda>p c f. Inr (contains p c)),
                  tree = Directory [] \<rparr>"

text \<open>
  203 outcomes, none of them required, of which 142 passed: 69.95 percent.
\<close>

definition results_142_of_203 :: "check_dict list" where
  "results_142_of_203 =
     replicate 142 \<lparr>name = ''ok'', description = [], passed = True, required = False, message = []\<rparr>
     @ replicate 61 \<lparr>name = ''ko'', description = [], passed = False, required = False, message = []\<rparr>"



section \<open>workspace-python-api/verification/verify\_fixes.py: SecurityVerifier\<close>

datatype Severity = CRITICAL | HIGH | MEDIUM | LOW

text \<open>\<open>CheckResult\<close>, named by the values of the enum: \<open>"pass"\<close>, \<open>"fail"\<close>, \<open>"skip"\<close>.\<close>

datatype CheckResult = Pass | Fail | Skip

text \<open>
  The dataclasses. \<open>name\<close>, \<open>description\<close> and \<open>message\<close> are written \<open>vname\<close>,
  \<open>vdescription\<close> and \<open>omessage\<close>, apart from the keys of the result dicts above.
\<close>

record VulnerabilityCheck =
  check_id :: string
  vname :: string
  severity :: Severity
  file_path :: string
  vulnerable_pattern :: "string option"
  fixed_pattern :: "string option"
  vdescription :: string
  points :: int

record CheckOutcome =
  check :: VulnerabilityCheck
  result :: CheckResult
  omessage :: string

record SecurityVerifier =
  base_path :: string
  checks :: "VulnerabilityCheck list"
  outcomes :: "CheckOutcome list"

text \<open>
  \<open>_define_checks\<close>. The patterns are the raw strings of the source; a backslash, a
  single quote and a double quote are written as character codes.
\<close>

definition SecurityVerifier_define_checks :: "VulnerabilityCheck list" where
  "SecurityVerifier_define_checks =
    [
     \<lparr> check_id = ''SQL-001'',
       vname = ''SQL Injection in Search'',
       severity = CRITICAL,
       file_path = ''app/routes/users.py'',
       vulnerable_pattern = Some (''LIKE'' @ [CHR 0x5C] @ ''s*['' @ [CHR 0x27, CHR 0x5C, CHR 0x22] @ '']%.*'' @ [CHR 0x5C] @ ''+.*query_param.*'' @ [CHR 0x5C] @ ''+.*%['' @ [CHR 0x27, CHR 0x5C, CHR 0x22] @ '']''),
       fixed_pattern = Some (''execute_query'' @ [CHR 0x5C] @ ''([^,]+,'' @ [CHR 0x5C] @ ''s*'' @ [CHR 0x5C] @ ''([^)]*query_param''),
       vdescription = ''Search function uses string concatenation in SQL query'',
       points = 15 \<rparr>,
     \<lparr> check_id = ''SQL-002'',
       vname = ''SQL Injection in Bulk Lookup'',
       severity = HIGH,
       file_path = ''app/routes/users.py'',
       vulnerable_pattern = Some (''f['' @ [CHR 0x22, CHR 0x5C, CHR 0x27] @ '']SELECT.*IN'' @ [CHR 0x5C] @ ''s*'' @ [CHR 0x5C] @ ''('' @ [CHR 0x5C] @ ''{''),
       fixed_pattern = Some (''execute_query'' @ [CHR 0x5C] @ ''([^,]+,'' @ [CHR 0x5C] @ ''s*'' @ [CHR 0x5C] @ ''(?.*user_ids''),
       vdescription = ''Bulk lookup uses f-string interpolation in SQL'',
       points = 10 \<rparr>,
     \<lparr> check_id = ''CRYPTO-001'',
       vname = ''Weak Password Hashing (MD5)'',
       severity = CRITICAL,
       file_path = ''app/utils/crypto.py'',
       vulnerable_pattern = Some (''hashlib'' @ [CHR 0x5C] @ ''.md5''),
       fixed_pattern = Some (''bcrypt'' @ [CHR 0x5C] @ ''.(hashpw|checkpw|gensalt)''),
       vdescription = ''MD5 is used for password hashing instead of bcrypt'',
       points = 20 \<rparr>,
     \<lparr> check_id = ''CONFIG-001'',
       vname = ''Hardcoded Secret Key'',
       severity = HIGH,
       file_path = ''config.py'',
       vulnerable_pattern = Some (''SECRET_KEY'' @ [CHR 0x5C] @ ''s*='' @ [CHR 0x5C] @ ''s*['' @ [CHR 0x27, CHR 0x5C, CHR 0x22] @ ''][a-zA-Z0-9_]{20,}['' @ [CHR 0x27, CHR 0x5C, CHR 0x22] @ '']''),
       fixed_pattern = Some (''SECRET_KEY'' @ [CHR 0x5C] @ ''s*='' @ [CHR 0x5C] @ ''s*os'' @ [CHR 0x5C] @ ''.environ'' @ [CHR 0x5C] @ ''.get'' @ [CHR 0x5C] @ ''(''),
       vdescription = ''Secret key is hardcoded in source code'',
       points = 15 \<rparr>,
     \<lparr> check_id = ''AUTH-001'',
       vname = ''Missing Authentication on Admin Endpoint'',
       severity = CRITICAL,
       file_path = ''app/routes/auth.py'',
       vulnerable_pattern = Some (''@auth_bp'' @ [CHR 0x5C] @ ''.route'' @ [CHR 0x5C] @ ''(['' @ [CHR 0x27, CHR 0x5C, CHR 0x22] @ '']'' @ [CHR 0x5C] @ ''/admin'' @ [CHR 0x5C] @ ''/users['' @ [CHR 0x27, CHR 0x5C, CHR 0x22] @ '']'' @ [CHR 0x5C] @ ''s*,.*'' @ [CHR 0x5C] @ '')'' @ [CHR 0x5C] @ ''s*'' @ [CHR 0x5C] @ ''ndef admin_list_users''),
       fixed_pattern = Some (''@(admin_required|token_required).*'' @ [CHR 0x5C] @ ''ndef admin_list_users''),
       vdescription = ''Admin endpoint lacks authentication decorator'',
       points = 15 \<rparr>,
     \<lparr> check_id = ''PATH-001'',
       vname = ''Path Traversal in File Access'',
       severity = HIGH,
       file_path = ''app/routes/users.py'',
       vulnerable_pattern = Some (''os'' @ [CHR 0x5C] @ ''.path'' @ [CHR 0x5C] @ ''.join'' @ [CHR 0x5C] @ ''(.*filename'' @ [CHR 0x5C] @ '')(?!.*startswith|realpath)''),
       fixed_pattern = Some (''(startswith'' @ [CHR 0x5C] @ ''(|realpath.*==|os'' @ [CHR 0x5C] @ ''.path'' @ [CHR 0x5C] @ ''.commonpath)''),
       vdescription = ''File path not validated against directory traversal'',
       points = 10 \<rparr>,
     \<lparr> check_id = ''DESER-001'',
       vname = ''Insecure Deserialization (Pickle)'',
       severity = CRITICAL,
       file_path = ''app/routes/auth.py'',
       vulnerable_pattern = Some (''pickle'' @ [CHR 0x5C] @ ''.(loads|dumps)''),
       fixed_pattern = Some (''json'' @ [CHR 0x5C] @ ''.(loads|dumps)''),
       vdescription = ''Pickle used for session data serialization'',
       points = 15 \<rparr>
    ]"

definition SecurityVerifier_init :: "string \<Rightarrow> SecurityVerifier" where
  "SecurityVerifier_init bp =
     \<lparr> base_path = bp, checks = SecurityVerifier_define_checks, outcomes = [] \<rparr>"

text \<open>\<open>os.path.join\<close> of two POSIX paths.\<close>

definition os_path_join :: "string \<Rightarrow> string \<Rightarrow> string" where
  "os_path_join a b =
     (if startswith b ''/'' then b
      else if a = [] \<or> last a = CHR ''/'' then a @ b
      else a @ ''/'' @ b)"

text \<open>
  \<open>_read_file\<close>: \<open>FileNotFoundError\<close> and any other \<open>IOError\<close> (which is \<open>OSError\<close>)
  give \<open>None\<close>; bytes that are not UTF-8 raise \<open>UnicodeDecodeError\<close>, which no clause
  catches.
\<close>

definition SecurityVerifier_read_file :: "env \<Rightarrow> string \<Rightarrow> string \<Rightarrow> exn + string option" where
  "SecurityVerifier_read_file e bp relative_path =
     (case fs e (os_path_join bp relative_path) of
        Missing \<Rightarrow> Inr None
      | Unreadable m \<Rightarrow> Inr None
      | Text s \<Rightarrow> Inr (Some s)
      | Garbled s \<Rightarrow> Inl (UnicodeDecodeError ''invalid start byte'')
      | Inaccessible m \<Rightarrow> Inr None)"

text \<open>
  \<open>_check_pattern\<close>: \<open>bool(re.search(pattern, content, re.MULTILINE | re.DOTALL))\<close>.
  \<open>re.search\<close> raises \<open>TypeError\<close> on a pattern that is \<open>None\<close>.
\<close>

definition SecurityVerifier_check_pattern :: "env \<Rightarrow> string \<Rightarrow> string option \<Rightarrow> exn + bool" where
  "SecurityVerifier_check_pattern e content pattern =
     (case pattern of
        None \<Rightarrow> Inl (TypeError ''first argument must be string or compiled pattern'')
      | Some p \<Rightarrow> re_search e p content {MULTILINE, DOTALL})"

text \<open>
  \<open>has_fix = self._check_pattern(content, check.fixed_pattern) if check.fixed_pattern else False\<close>:
  \<open>None\<close> and the empty string are falsy.
\<close>

definition has_fix_of :: "env \<Rightarrow> string \<Rightarrow> string option \<Rightarrow> exn + bool" where
  "has_fix_of e content fixed =
     (if fixed \<noteq> None \<and> fixed \<noteq> Some [] then SecurityVerifier_check_pattern e content fixed
      else Inr False)"

definition SecurityVerifier_run_check :: "env \<Rightarrow> string \<Rightarrow> VulnerabilityCheck \<Rightarrow> exn + CheckOutcome" where
  "SecurityVerifier_run_check e bp c =
     (case SecurityVerifier_read_file e bp (file_path c) of
        Inl x \<Rightarrow> Inl x
      | Inr None \<Rightarrow>
          Inr \<lparr> check = c, result = Skip, omessage = ''File not found: '' @ file_path c \<rparr>
      | Inr (Some content) \<Rightarrow>
          (case SecurityVerifier_check_pattern e content (vulnerable_pattern c) of
             Inl x \<Rightarrow> Inl x
           | Inr has_vulnerability \<Rightarrow>
               (case has_fix_of e content (fixed_pattern c) of
                  Inl x \<Rightarrow> Inl x
                | Inr has_fix \<Rightarrow>
                    Inr (if has_vulnerability \<and> \<not> has_fix then
                           \<lparr> check = c, result = Fail,
                             omessage = ''Vulnerability still present: '' @ vdescription c \<rparr>
                         else if has_fix \<and> \<not> has_vulnerability then
                           \<lparr> check = c, result = Pass, omessage = ''Fixed: '' @ vname c \<rparr>
                         else if \<not> has_vulnerability then
                           \<lparr> check = c, result = Pass,
                             omessage = ''Vulnerability pattern not found (may be fixed or code changed)'' \<rparr>
                         else
                           \<lparr> check = c, result = Fail,
                             omessage = ''Mixed signals: vulnerable pattern found but fix pattern also present'' \<rparr>))))"

text \<open>
  \<open>run_all_checks\<close>: the list comprehension, left to right; an exception of one check
  leaves the comprehension.
\<close>

fun run_checks :: "env \<Rightarrow> string \<Rightarrow> VulnerabilityCheck list \<Rightarrow> exn + CheckOutcome list" where
  "run_checks e bp [] = Inr []"
| "run_checks e bp (c # cs) =
     (case SecurityVerifier_run_check e bp c of
        Inl x \<Rightarrow> Inl x
      | Inr oc \<Rightarrow> (case run_checks e bp cs of Inl x \<Rightarrow> Inl x | Inr ocs \<Rightarrow> Inr (oc # ocs)))"

definition SecurityVerifier_run_all_checks :: "env \<Rightarrow> SecurityVerifier \<Rightarrow> exn + SecurityVerifier" where
  "SecurityVerifier_run_all_checks e sv =
     (case run_checks e (base_path sv) (checks sv) of
        Inl x \<Rightarrow> Inl x
      | Inr ocs \<Rightarrow> Inr (sv\<lparr>outcomes := ocs\<rparr>))"

record score =
  total_checks :: nat
  n_passed :: nat
  n_failed :: nat
  n_skipped :: nat
  points_earned :: int
  points_total :: int
  percentage :: pyfloat

text \<open>The points of the outcomes with a given result.\<close>

definition points_with :: "CheckResult \<Rightarrow> CheckOutcome list \<Rightarrow> int" where
  "points_with r ocs = sum_list (map (\<lambda>oc. points (check oc)) (filter (\<lambda>oc. result oc = r) ocs))"

text \<open>
  \<open>round((earned_points / total_points) * 100, 1) if total_points > 0 else 0\<close>: the
  quotient of the two \<open>int\<close>s can raise, the product can be infinite.
\<close>

definition percentage_of :: "int \<Rightarrow> int \<Rightarrow> exn + pyfloat" where
  "percentage_of earned_points total_points =
     (if total_points > 0 then
        (case int_truediv earned_points total_points of
           Inl x \<Rightarrow> Inl x
         | Inr q \<Rightarrow> Inr (float_round1 (float_mul q 100)))
      else Inr (Finite 0))"

definition SecurityVerifier_calculate_score :: "SecurityVerifier \<Rightarrow> exn + score" where
  "SecurityVerifier_calculate_score sv =
     (let total_points = sum_list (map points (checks sv));
          earned_points = points_with Pass (outcomes sv)
      in case percentage_of earned_points total_points of
           Inl x \<Rightarrow> Inl x
         | Inr pc \<Rightarrow>
             Inr \<lparr> total_checks = length (checks sv),
                   n_passed = length (filter (\<lambda>oc. result oc = Pass) (outcomes sv)),
                   n_failed = length (filter (\<lambda>oc. result oc = Fail) (outcomes sv)),
                   n_skipped = length (filter (\<lambda>oc. result oc = Skip) (outcomes sv)),
                   points_earned = earned_points,
                   points_total = total_points,
                   percentage = pc \<rparr>)"

text \<open>
  The specification's table of section 4.4, and its score with skipped checks left out of
  the denominator, written from the specification's words for comparison with the code.
\<close>

definition spec_verdict :: "bool \<Rightarrow> bool \<Rightarrow> CheckResult" where
  "spec_verdict vulnerable_found fix_found =
     (if vulnerable_found \<and> \<not> fix_found then Fail
      else if \<not> vulnerable_found \<and> fix_found then Pass
      else if \<not> vulnerable_found \<and> \<not> fix_found then Pass
      else Fail)"

definition spec_percentage :: "CheckOutcome list \<Rightarrow> rat" where
  "spec_percentage ocs =
     100 * of_int (points_with Pass ocs) / of_int (points_with Pass ocs + points_with Fail ocs)"

definition env_noconfig :: env where
  "env_noconfig = \<lparr> run_shell = (\<lambda>c. Completed [] []),
                    fs = (\<lambda>p. if p = ''/srv/api/config.py'' then Missing else Text ''import os''),
                    re_search = (\<lambda>p c f. Inr False),
                    tree = Directory [] \<rparr>"

definition sv_noconfig :: SecurityVerifier where
  "sv_noconfig =
     (SecurityVerifier_init ''/srv/api'')
       \<lparr>outcomes :=
          map (\<lambda>c. if file_path c = ''config.py''
                    then \<lparr> check = c, result = Skip, omessage = ''File not found: '' @ file_path c \<rparr>
                    else \<lparr> check = c, result = Pass,
                           omessage = ''Vulnerability pattern not found (may be fixed or code changed)'' \<rparr>)
              SecurityVerifier_define_checks\<rparr>"

definition check_no_vulnerable_pattern :: VulnerabilityCheck where
  "check_no_vulnerable_pattern =
     \<lparr> check_id = ''X-001'', vname = ''No pattern'', severity = LOW, file_path = ''config.py'',
       vulnerable_pattern = None, fixed_pattern = None,
       vdescription = ''A check without patterns'', points = 5 \<rparr>"

definition env_literal :: env where
  "env_literal = \<lparr> run_shell = (\<lambda>c. Completed [] []),
                   fs = (\<lambda>p. if p = ''/srv/api/config.py'' then Text ''SECRET_KEY = os.environ.get(1)''
                              else Missing),
                   re_search = (\<lambda>p c f. Inr (contains p c)),
                   tree = Directory [] \<rparr>"

definition check_literal :: VulnerabilityCheck where
  "check_literal =
     \<lparr> check_id = ''L-001'', vname = ''Literal secret'', severity = HIGH, file_path = ''config.py'',
       vulnerable_pattern = Some ''hardcoded'', fixed_pattern = Some ''environ'',
       vdescription = ''Secret key is hardcoded'', points = 15 \<rparr>"

text \<open>
  An environment in which reading and searching cannot fail for reasons outside the
  check: the regular-expression engine accepts every pattern, and no file holds bytes
  that are not UTF-8.
\<close>

definition well_behaved :: "env \<Rightarrow> bool" where
  "well_behaved e \<longleftrightarrow>
     (\<forall>p s f. \<exists>b. re_search e p s f = Inr b) \<and> (\<forall>p s. fs e p \<noteq> Garbled s)"

definition check_no_fixed_pattern :: VulnerabilityCheck where
  "check_no_fixed_pattern =
     \<lparr> check_id = ''L-002'', vname = ''Literal secret, no fix pattern'', severity = HIGH,
       file_path = ''config.py'',
       vulnerable_pattern = Some ''SECRET_KEY'', fixed_pattern = None,
       vdescription = ''Secret key is named'', points = 15 \<rparr>"

section \<open>scripts/benchmark\_evaluation.py: analyze\_results\<close>

text \<open>
  The keys of a task result that \<open>analyze_results\<close> reads, each \<open>None\<close> when the key is
  absent. A duration is a finite float. A rate is the float quotient of two counts, at
  most 1. The builtin \<open>sum\<close> over a list of durations rounds as it adds, in a way the
  interpreter fixes: it is a parameter \<open>fsum\<close> of the model, with a finite value;
  \<open>py_sum\<close> is what CPython up to 3.11 computes. An average is the float quotient of that
  sum by the length of the list, a length below \<open>2 ^ 53\<close> being a float exactly.
\<close>

record task_result =
  difficulty :: "string option"
  success :: "bool option"
  duration_seconds :: "rat option"

text \<open>
  \<open>result.get("difficulty", "unknown")\<close>, \<open>result.get("success", False)\<close>,
  \<open>result.get("duration_seconds", 0)\<close>
\<close>

definition get_difficulty :: "task_result \<Rightarrow> string" where
  "get_difficulty r = (case difficulty r of None \<Rightarrow> ''unknown'' | Some d \<Rightarrow> d)"

definition get_success :: "task_result \<Rightarrow> bool" where
  "get_success r = (case success r of None \<Rightarrow> False | Some b \<Rightarrow> b)"

definition get_duration :: "task_result \<Rightarrow> rat" where
  "get_duration r = (case duration_seconds r of None \<Rightarrow> 0 | Some d \<Rightarrow> d)"

text \<open>
  A bucket of \<open>by_difficulty\<close> after the first loop, and with the two keys the second
  loop adds. The keys \<open>total\<close>, \<open>success\<close> and \<open>durations\<close> are written \<open>b_total\<close>,
  \<open>b_success\<close> and \<open>b_durations\<close>.
\<close>

record bucket =
  b_total :: nat
  b_success :: nat
  b_durations :: "rat list"

record stats = bucket +
  success_rate :: rat
  avg_duration :: rat

text \<open>
  \<open>by_difficulty\<close> is a dict: an association list in insertion order, with one entry per
  key. \<open>dict_upd\<close> creates the bucket \<open>{"total": 0, "success": 0, "durations": []}\<close>
  when the key is new, then applies the update.
\<close>

fun dict_upd :: "(string \<times> bucket) list \<Rightarrow> string \<Rightarrow> (bucket \<Rightarrow> bucket) \<Rightarrow> (string \<times> bucket) list" where
  "dict_upd [] k f = [(k, f \<lparr>b_total = 0, b_success = 0, b_durations = []\<rparr>)]"
| "dict_upd ((k', v) # kvs) k f =
     (if k' = k then (k', f v) # kvs else (k', v) # dict_upd kvs k f)"

definition add_result :: "(string \<times> bucket) list \<Rightarrow> task_result \<Rightarrow> (string \<times> bucket) list" where
  "add_result by_diff r =
     dict_upd by_diff (get_difficulty r)
       (\<lambda>b. \<lparr> b_total = b_total b + 1,
              b_success = (if get_success r then b_success b + 1 else b_success b),
              b_durations = b_durations b @ [get_duration r] \<rparr>)"

definition finish :: "(rat list \<Rightarrow> rat) \<Rightarrow> bucket \<Rightarrow> stats" where
  "finish fsum b =
     \<lparr> b_total = b_total b, b_success = b_success b, b_durations = b_durations b,
       success_rate = (if b_total b > 0 then fl (of_nat (b_success b) / of_nat (b_total b)) else 0),
       avg_duration = (if b_durations b \<noteq> []
                       then fl (fsum (b_durations b) / of_nat (length (b_durations b))) else 0) \<rparr>"

text \<open>The float literals \<open>0.8\<close>, \<open>0.2\<close>, \<open>0.7\<close> and \<open>0.5\<close> are \<open>fl\<close> of the decimals.\<close>

definition overall_recommendations :: "rat \<Rightarrow> string list" where
  "overall_recommendations rate =
     (if rate > fl (8 / 10) then
        [''Tasks are too easy - increase difficulty factors'',
         ''Consider adding more traps and edge cases'']
      else if rate < fl (2 / 10) then
        [''Tasks may be too hard or unclear - review problem statements'',
         ''Consider simplifying instructions or adding more context'']
      else [''Difficulty calibration looks reasonable''])"

text \<open>
  One step of the loop over \<open>by_difficulty.items()\<close>. \<open>pct\<close> is the rendering
  \<open>f"{rate:.0%}"\<close> of the format mini-language, a parameter of the model;
  \<open>format_percent\<close>, defined below, is what CPython renders.
\<close>

definition bucket_recommendations :: "(rat \<Rightarrow> string) \<Rightarrow> string \<times> stats \<Rightarrow> string list" where
  "bucket_recommendations pct item =
     (if lower (fst item) = ''easy'' \<and> success_rate (snd item) < fl (7 / 10) then
        [''Easy tasks are too hard (success rate: '' @ pct (success_rate (snd item)) @ '')'']
      else if lower (fst item) = ''hard'' \<and> success_rate (snd item) > fl (5 / 10) then
        [''Hard tasks are too easy (success rate: '' @ pct (success_rate (snd item)) @ '')'']
      else [])"

record EvaluationReport =
  total_tasks :: nat
  successful_tasks :: nat
  failed_tasks :: nat
  report_success_rate :: rat
  average_duration :: rat
  by_difficulty :: "(string \<times> stats) list"
  task_results :: "task_result list"
  recommendations :: "string list"

definition analyze_results ::
  "(rat \<Rightarrow> string) \<Rightarrow> (rat list \<Rightarrow> rat) \<Rightarrow> task_result list \<Rightarrow> EvaluationReport" where
  "analyze_results pct fsum trs =
     (let successful = length (filter get_success trs);
          failed = length trs - successful;
          by_diff = map (\<lambda>item. (fst item, finish fsum (snd item))) (foldl add_result [] trs);
          overall_success_rate =
            (if trs \<noteq> [] then fl (of_nat successful / of_nat (length trs)) else 0);
          recs = overall_recommendations overall_success_rate
                 @ concat (map (bucket_recommendations pct) by_diff);
          ds = map get_duration trs;
          avg = (if ds \<noteq> [] then fl (fsum ds / of_nat (length ds)) else 0)
      in \<lparr> total_tasks = length trs,
           successful_tasks = successful,
           failed_tasks = failed,
           report_success_rate = overall_success_rate,
           average_duration = avg,
           by_difficulty = by_diff,
           task_results = trs,
           recommendations = recs \<rparr>)"

text \<open>
  The keys of a bucket that are compared across orderings of the input: \<open>total\<close>,
  \<open>success\<close>, \<open>success_rate\<close> and \<open>avg_duration\<close>. The \<open>durations\<close> list itself
  keeps the order of arrival.
\<close>

definition stats_view :: "stats \<Rightarrow> nat \<times> nat \<times> rat \<times> rat" where
  "stats_view st = (b_total st, b_success st, success_rate st, avg_duration st)"

text \<open>The three of them that do not depend on a sum of durations.\<close>

definition counts_view :: "stats \<Rightarrow> nat \<times> nat \<times> rat" where
  "counts_view st = (b_total st, b_success st, success_rate st)"

text \<open>
  The bucket the first loop builds for one difficulty, written as counts over the input:
  the form in which the loop's result is stated and proved below.
\<close>

definition bucket_of :: "string \<Rightarrow> task_result list \<Rightarrow> bucket" where
  "bucket_of d trs =
     \<lparr> b_total = length (filter (\<lambda>r. get_difficulty r = d) trs),
       b_success = length (filter (\<lambda>r. get_difficulty r = d \<and> get_success r) trs),
       b_durations = map get_duration (filter (\<lambda>r. get_difficulty r = d) trs) \<rparr>"

definition tr_easy_ok :: task_result where
  "tr_easy_ok = \<lparr> difficulty = Some ''easy'', success = Some True, duration_seconds = Some (25 / 2) \<rparr>"

definition tr_hard_fail :: task_result where
  "tr_hard_fail = \<lparr> difficulty = Some ''hard'', success = Some False, duration_seconds = Some 40 \<rparr>"

text \<open>
  Four records of difficulty \<open>easy\<close> whose durations are the floats \<open>0.1\<close>, \<open>0.2\<close>, \<open>0.3\<close>
  and \<open>0.4\<close>.
\<close>

definition tr_easy_lasting :: "rat \<Rightarrow> task_result" where
  "tr_easy_lasting d = \<lparr> difficulty = Some ''easy'', success = Some True, duration_seconds = Some (fl d) \<rparr>"

definition trs_tenths :: "task_result list" where
  "trs_tenths = map tr_easy_lasting [1 / 10, 2 / 10, 3 / 10, 4 / 10]"

text \<open>
  \<open>format_percent x\<close> is the rendering \<open>f"{x:.0%}"\<close> of a float whose product with
  100 is finite, as that of a rate is: the float product, rounded to an integer with ties
  to even and written in decimal digits, and a percent sign.
\<close>

fun digits_of :: "nat \<Rightarrow> string" where
  "digits_of n =
     (if n < 10 then [''0123456789'' ! n]
      else digits_of (n div 10) @ [''0123456789'' ! (n mod 10)])"

declare digits_of.simps [simp del]

definition format_percent :: "rat \<Rightarrow> string" where
  "format_percent x =
     (if x < 0 then ''-'' else []) @ digits_of (nat \<bar>round_half_even (fl (x * 100))\<bar>) @ ''%''"

section \<open>Properties\<close>

subsection \<open>Helper facts\<close>


lemma filter_required_passed_le:
  "length (filter (\<lambda>r. required r \<and> passed r) rs) \<le> length (filter required rs)"
  by (induction rs) auto

lemma required_all_passed_iff:
  "length (filter (\<lambda>r. required r \<and> passed r) rs) = length (filter required rs)
   \<longleftrightarrow> (\<forall>r \<in> set rs. required r \<longrightarrow> passed r)"
proof (induction rs)
  case Nil
  then show ?case by simp
next
  case (Cons r rs)
  have le: "length (filter (\<lambda>r. required r \<and> passed r) rs) \<le> length (filter required rs)"
    by (rule filter_required_passed_le)
  show ?case
  proof (cases "required r")
    case False
    with Cons show ?thesis by simp
  next
    case True
    show ?thesis
    proof (cases "passed r")
      case True
      with \<open>required r\<close> Cons show ?thesis by simp
    next
      case False
      with \<open>required r\<close> le show ?thesis by auto
    qed
  qed
qed

text \<open>The table of \<open>lower_char\<close>, as a rule on code points.\<close>

lemma lower_char_code:
  "(of_char (lower_char c) :: nat) =
     (if (65 \<le> (of_char c :: nat) \<and> (of_char c :: nat) \<le> 90)
         \<or> (192 \<le> (of_char c :: nat) \<and> (of_char c :: nat) \<le> 214)
         \<or> (216 \<le> (of_char c :: nat) \<and> (of_char c :: nat) \<le> 222)
      then of_char c + 32 else of_char c)"
proof (cases c)
  case (Char b0 b1 b2 b3 b4 b5 b6 b7)
  then show ?thesis
    by (cases b0; cases b1; cases b2; cases b3; cases b4; cases b5; cases b6; cases b7)
       (simp_all add: lower_char_def)
qed

lemma lower_e_acute: "lower [CHR 0xC9, CHR ''T'', CHR 0xC9] = [CHR 0xE9, CHR ''t'', CHR 0xE9]"
  by (simp add: lower_def lower_char_def)

subsection \<open>Rounding to a float\<close>

lemma round_half_even_bounds: "\<lfloor>x\<rfloor> \<le> round_half_even x \<and> round_half_even x \<le> \<lfloor>x\<rfloor> + 1"
  by (simp add: round_half_even_def Let_def)

lemma round_half_even_of_int: "round_half_even (of_int n) = n"
  by (simp add: round_half_even_def Let_def)

lemma round_half_even_mono:
  assumes "x \<le> y"
  shows "round_half_even x \<le> round_half_even y"
proof (cases "\<lfloor>x\<rfloor> = \<lfloor>y\<rfloor>")
  case True
  with assms show ?thesis by (auto simp: round_half_even_def Let_def)
next
  case False
  with floor_mono [OF assms] have "\<lfloor>x\<rfloor> + 1 \<le> \<lfloor>y\<rfloor>" by linarith
  with round_half_even_bounds [of x] round_half_even_bounds [of y] show ?thesis by linarith
qed

lemma pow2_powi: "pow2 k = 2 powi k"
  by (simp add: pow2_def power_int_def inverse_eq_divide power_divide)

lemma pow2_pos: "0 < pow2 k"
  by (simp add: pow2_powi)

lemma pow2_add: "pow2 (a + b) = pow2 a * pow2 b"
  by (simp add: pow2_powi power_int_add)

lemma pow2_mono: "a \<le> b \<Longrightarrow> pow2 a \<le> pow2 b"
  by (simp add: pow2_powi power_int_increasing)

lemma bitlen_pow2:
  assumes "0 < a"
  shows "pow2 (bitlen a - 1) \<le> of_int a \<and> (of_int a :: rat) < pow2 (bitlen a)"
proof -
  from bitlen_bounds [OF assms] have b: "2 ^ nat (bitlen a - 1) \<le> a" "a < 2 ^ nat (bitlen a)"
    by simp_all
  have "bitlen a = bitlen (a div 2) + 1" using assms by (simp add: compute_bitlen [of a])
  with bitlen_nonneg [of "a div 2"] have pos: "0 < bitlen a" by simp
  from b(1) have "(of_int (2 ^ nat (bitlen a - 1)) :: rat) \<le> of_int a" by (simp only: of_int_le_iff)
  then have l: "pow2 (bitlen a - 1) \<le> of_int a" using pos by (simp add: pow2_def)
  from b(2) have "(of_int a :: rat) < of_int (2 ^ nat (bitlen a))" by (simp only: of_int_less_iff)
  then have u: "(of_int a :: rat) < pow2 (bitlen a)" using pos by (simp add: pow2_def)
  from l u show ?thesis by simp
qed

text \<open>\<open>floor_log2\<close> is the exponent of the binade of a positive rational.\<close>

lemma floor_log2_bounds:
  assumes "0 < x"
  shows "pow2 (floor_log2 x) \<le> x \<and> x < pow2 (floor_log2 x + 1)"
proof -
  obtain a b where q: "quotient_of x = (a, b)" by (cases "quotient_of x")
  from quotient_of_denom_pos [OF q] have b: "0 < b" .
  from quotient_of_div [OF q] have x: "x = of_int a / of_int b" .
  from assms x b have a: "0 < a" by (simp add: zero_less_divide_iff)
  let ?d = "bitlen a - bitlen b"
  note A = bitlen_pow2 [OF a] and B = bitlen_pow2 [OF b]
  have bpos: "(0::rat) < of_int b" using b by simp
  have up: "x < pow2 (?d + 1)"
  proof -
    have "of_int a < pow2 (bitlen a)" using A by simp
    also have "\<dots> = pow2 (?d + 1) * pow2 (bitlen b - 1)" by (simp add: pow2_add [symmetric])
    also have "\<dots> \<le> pow2 (?d + 1) * of_int b"
      using B pow2_pos [of "?d + 1"] by (simp add: mult_left_mono)
    finally have "of_int a < pow2 (?d + 1) * of_int b" .
    then show ?thesis using bpos x by (simp add: pos_divide_less_eq)
  qed
  have lo: "pow2 (?d - 1) \<le> x"
  proof -
    have "pow2 (?d - 1) * of_int b \<le> pow2 (?d - 1) * pow2 (bitlen b)"
      using B pow2_pos [of "?d - 1"] by (simp add: mult_left_mono less_imp_le)
    also have "\<dots> = pow2 (bitlen a - 1)" by (simp add: pow2_add [symmetric])
    also have "\<dots> \<le> of_int a" using A by simp
    finally have "pow2 (?d - 1) * of_int b \<le> of_int a" .
    then show ?thesis using bpos x by (simp add: pos_le_divide_eq)
  qed
  show ?thesis
  proof (cases "pow2 ?d \<le> x")
    case True
    then have "floor_log2 x = ?d" by (simp add: floor_log2_def q)
    with True up show ?thesis by simp
  next
    case False
    then have "floor_log2 x = ?d - 1" by (simp add: floor_log2_def q)
    with False lo show ?thesis by simp
  qed
qed

lemma floor_log2_mono:
  assumes "0 < x" "x \<le> y"
  shows "floor_log2 x \<le> floor_log2 y"
proof (rule ccontr)
  assume "\<not> floor_log2 x \<le> floor_log2 y"
  then have "floor_log2 y + 1 \<le> floor_log2 x" by simp
  then have "pow2 (floor_log2 y + 1) \<le> pow2 (floor_log2 x)" by (rule pow2_mono)
  moreover from assms have "0 < y" by simp
  ultimately show False
    using floor_log2_bounds [OF assms(1)] floor_log2_bounds [OF \<open>0 < y\<close>] assms(2) by linarith
qed

lemma fl_zero: "fl 0 = 0"
  by (simp add: fl_def)

lemma fl_pos: "0 < x \<Longrightarrow> fl x = of_int (round_half_even (x / pow2 (ulp_exp x))) * pow2 (ulp_exp x)"
  by (simp add: fl_def)

lemma fl_nonneg:
  assumes "0 \<le> x"
  shows "0 \<le> fl x"
proof (cases "x = 0")
  case True
  then show ?thesis by (simp add: fl_def)
next
  case False
  with assms have p: "0 < x" by simp
  have "0 \<le> x / pow2 (ulp_exp x)" using p pow2_pos [of "ulp_exp x"] by simp
  then have "round_half_even 0 \<le> round_half_even (x / pow2 (ulp_exp x))" by (rule round_half_even_mono)
  then have "0 \<le> round_half_even (x / pow2 (ulp_exp x))" by (simp add: round_half_even_def)
  then show ?thesis using pow2_pos [of "ulp_exp x"] by (simp add: fl_pos [OF p])
qed

lemma fl_mono_pos:
  assumes "0 < x" "x \<le> y"
  shows "fl x \<le> fl y"
proof -
  from assms have y: "0 < y" by simp
  let ?ux = "pow2 (ulp_exp x)" and ?uy = "pow2 (ulp_exp y)"
  have ex: "ulp_exp x \<le> ulp_exp y"
    using floor_log2_mono [OF assms] assms by (simp add: ulp_exp_def)
  show ?thesis
  proof (cases "ulp_exp x = ulp_exp y")
    case True
    have "x / ?ux \<le> y / ?ux" using assms(2) pow2_pos [of "ulp_exp x"] by (simp add: divide_right_mono)
    then have "round_half_even (x / ?ux) \<le> round_half_even (y / ?ux)" by (rule round_half_even_mono)
    then have "(of_int (round_half_even (x / ?ux)) :: rat) \<le> of_int (round_half_even (y / ?ux))" by simp
    then show ?thesis
      using pow2_pos [of "ulp_exp x"] by (simp add: fl_pos [OF assms(1)] fl_pos [OF y] True [symmetric] mult_right_mono)
  next
    case False
    with ex have lt: "ulp_exp x < ulp_exp y" by simp
    then have fy: "ulp_exp y = floor_log2 y - 52" and gt: "floor_log2 x < floor_log2 y"
      using assms y by (auto simp: ulp_exp_def max_def split: if_splits)
    have p53: "pow2 53 = of_int (2 ^ 53)" and p52: "pow2 52 = of_int (2 ^ 52)"
      by (simp_all add: pow2_def)
    let ?m = "ulp_exp x + 53"
    have m: "?m \<le> floor_log2 y" using lt fy by simp
    have fx: "floor_log2 x + 1 \<le> ?m" using assms(1) by (simp add: ulp_exp_def)
    have "x < pow2 (floor_log2 x + 1)" using floor_log2_bounds [OF assms(1)] by simp
    also have "\<dots> \<le> pow2 ?m" using fx by (rule pow2_mono)
    finally have "x < pow2 ?m" .
    then have "x / ?ux \<le> pow2 53" using pow2_pos [of "ulp_exp x"]
      by (simp add: pow2_add pos_divide_le_eq mult.commute)
    then have "round_half_even (x / ?ux) \<le> round_half_even (pow2 53)" by (rule round_half_even_mono)
    also have "pow2 53 = of_int (2 ^ 53)" by (rule p53)
    finally have "round_half_even (x / ?ux) \<le> 2 ^ 53" by (simp only: round_half_even_of_int)
    then have "(of_int (round_half_even (x / ?ux)) :: rat) \<le> of_int (2 ^ 53)" by (simp only: of_int_le_iff)
    then have "of_int (round_half_even (x / ?ux)) * ?ux \<le> of_int (2 ^ 53) * ?ux"
      using pow2_pos [of "ulp_exp x"] by (simp only: mult_right_mono less_imp_le)
    also have "of_int (2 ^ 53) * ?ux = pow2 ?m"
      unfolding p53 [symmetric] by (simp only: pow2_add mult.commute)
    finally have a: "fl x \<le> pow2 ?m" by (simp only: fl_pos [OF assms(1)])
    have "pow2 (floor_log2 y) \<le> y" using floor_log2_bounds [OF y] by simp
    then have "pow2 52 \<le> y / ?uy" using pow2_pos [of "ulp_exp y"]
      by (simp add: fy pos_le_divide_eq pow2_add [symmetric])
    then have "round_half_even (pow2 52) \<le> round_half_even (y / ?uy)" by (rule round_half_even_mono)
    moreover note p52
    ultimately have "2 ^ 52 \<le> round_half_even (y / ?uy)" by (simp only: round_half_even_of_int)
    then have "(of_int (2 ^ 52) :: rat) \<le> of_int (round_half_even (y / ?uy))" by (simp only: of_int_le_iff)
    then have "of_int (2 ^ 52) * ?uy \<le> of_int (round_half_even (y / ?uy)) * ?uy"
      using pow2_pos [of "ulp_exp y"] by (simp only: mult_right_mono less_imp_le)
    moreover have "of_int (2 ^ 52) * ?uy = pow2 (floor_log2 y)"
      unfolding p52 [symmetric] fy by (simp add: pow2_add [symmetric])
    ultimately have b: "pow2 (floor_log2 y) \<le> fl y" by (simp only: fl_pos [OF y])
    from a pow2_mono [OF m] b show ?thesis by linarith
  qed
qed

text \<open>Rounding to a float is monotone on the non-negative rationals.\<close>

lemma fl_mono:
  assumes "0 \<le> x" "x \<le> y"
  shows "fl x \<le> fl y"
proof (cases "x = 0")
  case True
  from assms have "0 \<le> y" by simp
  from fl_nonneg [OF this] True show ?thesis by (simp add: fl_def)
next
  case False
  with assms have "0 < x" by simp
  then show ?thesis using assms(2) by (rule fl_mono_pos)
qed

lemma py_round1_mono:
  assumes "0 \<le> x" "x \<le> y"
  shows "py_round1 x \<le> py_round1 y"
proof -
  from assms have "0 \<le> x * 10" "x * 10 \<le> y * 10" by simp_all
  from round_half_even_mono [OF this(1)] round_half_even_mono [OF this(2)]
  have "0 \<le> round_half_even (x * 10)" "round_half_even (x * 10) \<le> round_half_even (y * 10)"
    by (simp_all add: round_half_even_def)
  then have "(0::rat) \<le> of_int (round_half_even (x * 10)) / 10"
    "(of_int (round_half_even (x * 10)) :: rat) / 10 \<le> of_int (round_half_even (y * 10)) / 10"
    by simp_all
  then show ?thesis unfolding py_round1_def by (rule fl_mono)
qed

text \<open>Values of the float operations at the numbers the verifiers compare with.\<close>

lemma fl_tenth: "fl (1 / 10) = 3602879701896397 / 36028797018963968"
  by code_simp

lemma fl_one: "fl 1 = 1"
  by code_simp

lemma fl_hundred: "fl 100 = 100"
  by code_simp

lemma fl_seventy_percent: "fl (fl (7 / 10) * 100) = 70"
  by code_simp

lemma fl_below_seventy_percent: "fl (fl (7 / 10 - 1 / 10 ^ 15) * 100) < 70"
  by code_simp

lemma py_round1_seventy: "py_round1 70 = 70"
  by code_simp

lemma fl_142_of_203: "fl (fl (142 / 203) * 100) = 4922345651836595 / 70368744177664"
  by code_simp

lemma py_round1_142_of_203: "py_round1 (4922345651836595 / 70368744177664) = 70"
  by code_simp

lemma float_max_ge: "1 \<le> float_max" "100 \<le> float_max"
  by (simp_all add: float_max_def)

text \<open>
  A fraction of a positive whole, as a percentage: the quotient and the product are
  finite, between 0 and 1 and between 0 and 100.
\<close>

lemma fl_fraction:
  assumes "0 \<le> a" "a \<le> b" "0 < b"
  shows "0 \<le> fl (a / b) \<and> fl (a / b) \<le> 1
       \<and> 0 \<le> fl (fl (a / b) * 100) \<and> fl (fl (a / b) * 100) \<le> 100"
proof -
  from assms have q: "0 \<le> a / b" "a / b \<le> 1" by simp_all
  from fl_nonneg [OF q(1)] have n: "0 \<le> fl (a / b)" .
  from fl_mono [OF q] have u: "fl (a / b) \<le> 1" by (simp add: fl_one)
  from n u have p: "0 \<le> fl (a / b) * 100" "fl (a / b) * 100 \<le> 100" by simp_all
  from fl_nonneg [OF p(1)] fl_mono [OF p] show ?thesis using n u by (simp add: fl_hundred)
qed

lemma percentage_of_fraction:
  assumes "0 \<le> a" "a \<le> b" "0 < b"
  shows "percentage_of a b = Inr (Finite (py_round1 (fl (fl (of_int a / of_int b) * 100))))"
proof -
  from assms have "(0::rat) \<le> of_int a" "(of_int a :: rat) \<le> of_int b" "(0::rat) < of_int b"
    by simp_all
  from fl_fraction [OF this] float_max_ge
  have d: "\<not> float_max < \<bar>fl (of_int a / of_int b)\<bar>"
    and m: "\<not> float_max < fl (fl (of_int a / of_int b) * 100)"
         "\<not> fl (fl (of_int a / of_int b) * 100) < - float_max"
    by simp_all
  from assms(3) d have "int_truediv a b = Inr (fl (of_int a / of_int b))"
    by (simp add: int_truediv_def Let_def)
  moreover from m have "float_mul (fl (of_int a / of_int b)) 100
      = Finite (fl (fl (of_int a / of_int b) * 100))"
    by (simp add: float_mul_def Let_def)
  ultimately show ?thesis using assms(3) by (simp add: percentage_of_def)
qed

subsection \<open>ScoreAggregator verdict\<close>

lemma auto_score_counts:
  "auto_score rs =
     (if rs = [] then 0
      else fl (fl (of_nat (length (filter passed rs)) / of_nat (length rs)) * 100))"
  by (simp add: auto_score_def Let_def)

lemma auto_score_nonneg: "0 \<le> auto_score rs"
proof (cases "rs = []")
  case True
  then show ?thesis by (simp add: auto_score_counts)
next
  case False
  have "(0::rat) \<le> of_nat (length (filter passed rs)) / of_nat (length rs)" by simp
  from fl_nonneg [OF this]
  have "0 \<le> fl (of_nat (length (filter passed rs)) / of_nat (length rs)) * 100" by simp
  from fl_nonneg [OF this] False show ?thesis by (simp add: auto_score_counts)
qed

text \<open>At least seven outcomes in ten passed: the computed percentage is at least 70.\<close>

lemma auto_score_ge_70:
  assumes "rs \<noteq> []" and "7 * length rs \<le> 10 * length (filter passed rs)"
  shows "70 \<le> auto_score rs"
proof -
  let ?p = "of_nat (length (filter passed rs)) :: rat" and ?t = "of_nat (length rs) :: rat"
  from assms(1) have t: "0 < ?t" by simp
  from assms(2) have "of_nat (7 * length rs) \<le> (of_nat (10 * length (filter passed rs)) :: rat)"
    by (simp only: of_nat_le_iff)
  then have "7 * ?t \<le> 10 * ?p" by simp
  with t have q: "7 / 10 \<le> ?p / ?t" by (simp add: pos_le_divide_eq)
  have "fl (7 / 10) \<le> fl (?p / ?t)" by (rule fl_mono [OF _ q]) simp
  then have m: "fl (7 / 10) * 100 \<le> fl (?p / ?t) * 100" by simp
  have "0 \<le> fl (7 / 10) * 100" using fl_nonneg [of "7 / 10"] by simp
  from fl_mono [OF this m] have "70 \<le> fl (fl (?p / ?t) * 100)" by (simp only: fl_seventy_percent)
  with assms(1) show ?thesis by (simp add: auto_score_counts)
qed

text \<open>
  Fewer than seven outcomes in ten passed, of at most \<open>10 ^ 14\<close> outcomes: the computed
  percentage is below 70.
\<close>

lemma auto_score_lt_70:
  assumes "length rs \<le> 10 ^ 14" and "10 * length (filter passed rs) < 7 * length rs"
  shows "auto_score rs < 70"
proof -
  let ?p = "of_nat (length (filter passed rs)) :: rat" and ?t = "of_nat (length rs) :: rat"
  from assms(2) have ne: "rs \<noteq> []" by auto
  then have t: "0 < ?t" by simp
  from assms(1) have "?t \<le> of_nat (10 ^ 14)" by (simp only: of_nat_le_iff)
  then have tb: "?t \<le> 10 ^ 14" by simp
  from assms(2) have "10 * length (filter passed rs) + 1 \<le> 7 * length rs" by simp
  then have "of_nat (10 * length (filter passed rs) + 1) \<le> (of_nat (7 * length rs) :: rat)"
    by (simp only: of_nat_le_iff)
  then have pb: "10 * ?p + 1 \<le> 7 * ?t" by simp
  from tb pb have "?p \<le> (7 / 10 - 1 / 10 ^ 15) * ?t" by simp
  with t have q: "?p / ?t \<le> 7 / 10 - 1 / 10 ^ 15" by (simp only: pos_divide_le_eq)
  have "fl (?p / ?t) \<le> fl (7 / 10 - 1 / 10 ^ 15)" by (rule fl_mono [OF _ q]) simp
  then have m: "fl (?p / ?t) * 100 \<le> fl (7 / 10 - 1 / 10 ^ 15) * 100" by simp
  have "0 \<le> fl (?p / ?t) * 100" using fl_nonneg [of "?p / ?t"] by simp
  from fl_mono [OF this m] fl_below_seventy_percent
  have "fl (fl (?p / ?t) * 100) < 70" by simp
  with ne show ?thesis by (simp add: auto_score_counts)
qed

lemma all_required_passed_iff:
  "all_required_passed rs \<longleftrightarrow> (\<forall>r \<in> set rs. required r \<longrightarrow> passed r)"
proof (cases "length (filter required rs) > 0")
  case True
  then show ?thesis
    using required_all_passed_iff [of rs] by (simp add: all_required_passed_def Let_def)
next
  case False
  then have "\<forall>r \<in> set rs. \<not> required r" by (simp add: filter_empty_conv)
  with False show ?thesis by (simp add: all_required_passed_def Let_def)
qed

text \<open>
  C1 (as the code has it). The overall status is PASS exactly when the percentage
  \<open>passed / total * 100\<close>, computed in floats and not rounded, is at least 70 and all
  required outcomes passed; the required gate is true when no outcome is required, and is
  otherwise the statement that every required outcome passed. For a non-empty list of at most
  \<open>10 ^ 14\<close> outcomes the threshold is exact on the counts: at least seven outcomes in
  ten passed. The \<open>score_percentage\<close> that is returned is that percentage rounded to one
  decimal: it is at least 70 on every PASS, and a value above 70 with all required
  outcomes passed is a PASS, but the value 70.0 itself goes with either status. For the
  empty list the returned score is 0 and the status is FAIL.
\<close>

theorem overall_status_pass_iff:
  "(overall_status (SolutionVerifier_calculate_score rs) = PASS
      \<longleftrightarrow> auto_score rs \<ge> 70 \<and> rc_all_passed (SolutionVerifier_calculate_score rs))
   \<and> (rc_total (SolutionVerifier_calculate_score rs) = 0
        \<longrightarrow> rc_all_passed (SolutionVerifier_calculate_score rs))
   \<and> (rc_all_passed (SolutionVerifier_calculate_score rs)
        \<longleftrightarrow> (\<forall>r \<in> set rs. required r \<longrightarrow> passed r))
   \<and> auto_score rs =
       (if rs = [] then 0
        else fl (fl (of_nat (length (filter passed rs)) / of_nat (length rs)) * 100))
   \<and> ac_score_percentage (SolutionVerifier_calculate_score rs) = py_round1 (auto_score rs)
   \<and> (rs \<noteq> [] \<and> 7 * length rs \<le> 10 * length (filter passed rs)
        \<and> (\<forall>r \<in> set rs. required r \<longrightarrow> passed r)
       \<longrightarrow> overall_status (SolutionVerifier_calculate_score rs) = PASS)
   \<and> (length rs \<le> 10 ^ 14 \<and> overall_status (SolutionVerifier_calculate_score rs) = PASS
       \<longrightarrow> rs \<noteq> [] \<and> 7 * length rs \<le> 10 * length (filter passed rs))
   \<and> (overall_status (SolutionVerifier_calculate_score rs) = PASS
       \<longrightarrow> 70 \<le> ac_score_percentage (SolutionVerifier_calculate_score rs))
   \<and> (70 < ac_score_percentage (SolutionVerifier_calculate_score rs)
        \<and> rc_all_passed (SolutionVerifier_calculate_score rs)
       \<longrightarrow> overall_status (SolutionVerifier_calculate_score rs) = PASS)
   \<and> ac_score_percentage (SolutionVerifier_calculate_score []) = 0
   \<and> overall_status (SolutionVerifier_calculate_score []) = FAIL"
proof -
  let ?s = "SolutionVerifier_calculate_score rs"
  have a: "overall_status ?s = PASS \<longleftrightarrow> auto_score rs \<ge> 70 \<and> rc_all_passed ?s"
    by (simp add: SolutionVerifier_calculate_score_def Let_def)
  have b: "rc_total ?s = 0 \<longrightarrow> rc_all_passed ?s"
    by (simp add: SolutionVerifier_calculate_score_def all_required_passed_def Let_def)
  have c: "rc_all_passed ?s \<longleftrightarrow> (\<forall>r \<in> set rs. required r \<longrightarrow> passed r)"
    by (simp add: SolutionVerifier_calculate_score_def Let_def all_required_passed_iff)
  have d: "auto_score rs =
       (if rs = [] then 0
        else fl (fl (of_nat (length (filter passed rs)) / of_nat (length rs)) * 100))"
    by (rule auto_score_counts)
  have e: "ac_score_percentage ?s = py_round1 (auto_score rs)"
    by (simp add: SolutionVerifier_calculate_score_def Let_def)
  have f: "rs \<noteq> [] \<and> 7 * length rs \<le> 10 * length (filter passed rs)
        \<and> (\<forall>r \<in> set rs. required r \<longrightarrow> passed r)
       \<longrightarrow> overall_status ?s = PASS"
    using a c auto_score_ge_70 [of rs] by blast
  have g: "length rs \<le> 10 ^ 14 \<and> overall_status ?s = PASS
       \<longrightarrow> rs \<noteq> [] \<and> 7 * length rs \<le> 10 * length (filter passed rs)"
  proof
    assume h: "length rs \<le> 10 ^ 14 \<and> overall_status ?s = PASS"
    with a have ge: "70 \<le> auto_score rs" by blast
    then have ne: "rs \<noteq> []" by (auto simp: auto_score_counts)
    have "\<not> 10 * length (filter passed rs) < 7 * length rs"
    proof
      assume "10 * length (filter passed rs) < 7 * length rs"
      with h have "auto_score rs < 70" using auto_score_lt_70 [of rs] by blast
      with ge show False by simp
    qed
    with ne show "rs \<noteq> [] \<and> 7 * length rs \<le> 10 * length (filter passed rs)" by simp
  qed
  have i: "overall_status ?s = PASS \<longrightarrow> 70 \<le> ac_score_percentage ?s"
  proof
    assume "overall_status ?s = PASS"
    with a have "70 \<le> auto_score rs" by blast
    from py_round1_mono [OF _ this] show "70 \<le> ac_score_percentage ?s"
      by (simp add: e py_round1_seventy)
  qed
  have j: "70 < ac_score_percentage ?s \<and> rc_all_passed ?s \<longrightarrow> overall_status ?s = PASS"
  proof
    assume h: "70 < ac_score_percentage ?s \<and> rc_all_passed ?s"
    have "70 \<le> auto_score rs"
    proof (rule ccontr)
      assume "\<not> 70 \<le> auto_score rs"
      then have "auto_score rs \<le> 70" by simp
      from py_round1_mono [OF auto_score_nonneg this] have "py_round1 (auto_score rs) \<le> 70"
        by (simp add: py_round1_seventy)
      with h e show False by simp
    qed
    with a h show "overall_status ?s = PASS" by blast
  qed
  have k: "ac_score_percentage (SolutionVerifier_calculate_score []) = 0"
    by (simp add: SolutionVerifier_calculate_score_def auto_score_def py_round1_def
        round_half_even_def fl_zero Let_def)
  have l: "overall_status (SolutionVerifier_calculate_score []) = FAIL"
    by (simp add: SolutionVerifier_calculate_score_def auto_score_def Let_def)
  from a b c d e f g i j k l show ?thesis by (intro conjI)
qed

lemma py_round1_hundred: "py_round1 (fl (fl (1 / 1) * 100)) = 100"
  by code_simp

theorem overall_status_pass_iff_witness:
  "[\<lparr>name = ''a'', description = ''d'', passed = True, required = False, message = ''m''\<rparr>] \<noteq> []
   \<and> rc_total (SolutionVerifier_calculate_score
        [\<lparr>name = ''a'', description = ''d'', passed = True, required = False, message = ''m''\<rparr>]) = 0
   \<and> rc_all_passed (SolutionVerifier_calculate_score
        [\<lparr>name = ''a'', description = ''d'', passed = True, required = False, message = ''m''\<rparr>])
   \<and> overall_status (SolutionVerifier_calculate_score
        [\<lparr>name = ''a'', description = ''d'', passed = True, required = False, message = ''m''\<rparr>]) = PASS
   \<and> ac_score_percentage (SolutionVerifier_calculate_score
        [\<lparr>name = ''a'', description = ''d'', passed = True, required = False, message = ''m''\<rparr>]) = 100
   \<and> length [\<lparr>name = ''a'', description = ''d'', passed = True, required = False, message = ''m''\<rparr>]
        \<le> 10 ^ 14
   \<and> 7 * length [\<lparr>name = ''a'', description = ''d'', passed = True, required = False, message = ''m''\<rparr>]
        \<le> 10 * length (filter passed
             [\<lparr>name = ''a'', description = ''d'', passed = True, required = False, message = ''m''\<rparr>])
   \<and> 70 < ac_score_percentage (SolutionVerifier_calculate_score
        [\<lparr>name = ''a'', description = ''d'', passed = True, required = False, message = ''m''\<rparr>])"
proof -
  let ?rs = "[\<lparr>name = ''a'', description = ''d'', passed = True, required = False, message = ''m''\<rparr>]"
  have ne: "?rs \<noteq> []" by simp
  have rt: "rc_total (SolutionVerifier_calculate_score ?rs) = 0"
    by (simp add: SolutionVerifier_calculate_score_def Let_def)
  note t = overall_status_pass_iff [of ?rs]
  from t rt have ap: "rc_all_passed (SolutionVerifier_calculate_score ?rs)" by blast
  have cnt: "?rs \<noteq> [] \<and> 7 * length ?rs \<le> 10 * length (filter passed ?rs)
        \<and> (\<forall>r \<in> set ?rs. required r \<longrightarrow> passed r)" by simp
  from t [THEN conjunct2, THEN conjunct2, THEN conjunct2, THEN conjunct2, THEN conjunct2,
      THEN conjunct1, THEN mp, OF cnt]
  have st: "overall_status (SolutionVerifier_calculate_score ?rs) = PASS" .
  from t [THEN conjunct2, THEN conjunct2, THEN conjunct2, THEN conjunct1]
  have "auto_score ?rs = fl (fl (1 / 1) * 100)" by simp
  with t [THEN conjunct2, THEN conjunct2, THEN conjunct2, THEN conjunct2, THEN conjunct1]
  have pc: "ac_score_percentage (SolutionVerifier_calculate_score ?rs) = 100"
    by (simp only: py_round1_hundred)
  have ln: "length ?rs \<le> 10 ^ 14" by simp
  from ln st have "length ?rs \<le> 10 ^ 14 \<and> overall_status (SolutionVerifier_calculate_score ?rs) = PASS"
    by (rule conjI)
  with t [THEN conjunct2, THEN conjunct2, THEN conjunct2, THEN conjunct2, THEN conjunct2,
      THEN conjunct2, THEN conjunct1]
  have "?rs \<noteq> [] \<and> 7 * length ?rs \<le> 10 * length (filter passed ?rs)" by (rule mp)
  then have cn: "7 * length ?rs \<le> 10 * length (filter passed ?rs)" by (rule conjunct2)
  from pc have gt: "70 < ac_score_percentage (SolutionVerifier_calculate_score ?rs)" by simp
  from ne rt ap st pc ln cn gt show ?thesis by (intro conjI)
qed

text \<open>
  The returned \<open>score_percentage\<close> does not decide the status: with 142 of 203 outcomes
  passed and none required, the percentage 69.95\<dots> is below the threshold, so the status
  is FAIL, and the returned score is its rounding 70.0, with \<open>all_passed\<close> true.
\<close>

theorem score_70_status_fail_counterexample:
  "ac_total (SolutionVerifier_calculate_score results_142_of_203) = 203
   \<and> ac_passed (SolutionVerifier_calculate_score results_142_of_203) = 142
   \<and> ac_score_percentage (SolutionVerifier_calculate_score results_142_of_203) = 70
   \<and> rc_all_passed (SolutionVerifier_calculate_score results_142_of_203)
   \<and> overall_status (SolutionVerifier_calculate_score results_142_of_203) = FAIL"
proof -
  have len: "length results_142_of_203 = 203" "length (filter passed results_142_of_203) = 142"
    "length (filter required results_142_of_203) = 0"
    by (simp_all add: results_142_of_203_def)
  have ne: "results_142_of_203 \<noteq> []" using len(1) by auto
  have sc: "auto_score results_142_of_203 = 4922345651836595 / 70368744177664"
    using ne by (simp add: auto_score_counts len fl_142_of_203)
  have rq: "all_required_passed results_142_of_203"
    by (simp add: all_required_passed_def len)
  show ?thesis
    by (simp add: SolutionVerifier_calculate_score_def Let_def len sc rq py_round1_142_of_203)
qed

subsection \<open>file\_exists checks\<close>

lemma lower_str_bool: "lower (str_bool b) = (if b then ''true'' else ''false'')"
  by (simp add: str_bool_def lower_def lower_char_def)

lemma execute_check_returns: "\<exists>r. SolutionVerifier_execute_check e sd ct tgt expd = Inr r"
  by (simp add: SolutionVerifier_execute_check_def split: sum.splits)

lemma execute_check_file_exists:
  "SolutionVerifier_execute_check e sd ''file_exists'' tgt expd =
     Inr (case path_exists e (resolve sd tgt) of
            Inl x \<Rightarrow> (initial_result ''file_exists'' tgt)\<lparr>message := ''Error: '' @ str_exn x\<rparr>
          | Inr ex \<Rightarrow>
              (initial_result ''file_exists'' tgt)
                \<lparr>passed := (lower (str_bool ex) = lower expd),
                 message := ''File '' @ tgt @ '' exists: '' @ str_bool ex\<rparr>)"
  by (simp add: SolutionVerifier_execute_check_def execute_body_def Let_def split: sum.splits)

text \<open>
  C5 (as the code has it). A \<open>file_exists\<close> check never raises. When \<open>Path.exists()\<close>
  returns, the check passes exactly when \<open>str(exists).lower() == expected.lower()\<close>: the
  path exists and \<open>expected\<close> lowers to \<open>"true"\<close>, or it does not exist and \<open>expected\<close>
  lowers to \<open>"false"\<close>. For those two spellings of \<open>expected\<close> this is the
  specification's \<open>exists == (expected.lower() == "true")\<close>; for any other string the
  check fails whether or not the path exists. When \<open>Path.exists()\<close> raises, the check
  fails with the message \<open>Error: ...\<close>, whatever \<open>expected\<close> is. A target starting with
  \<open>/\<close> is used as it is, any other target is taken under the solution directory.
\<close>

theorem file_exists_passes_iff:
  "(path_exists e (resolve sd tgt) = Inr ex \<longrightarrow>
      (\<exists>r. SolutionVerifier_execute_check e sd ''file_exists'' tgt expd = Inr r
         \<and> (passed r \<longleftrightarrow> lower (str_bool ex) = lower expd)
         \<and> (passed r \<longleftrightarrow> (ex \<and> lower expd = ''true'') \<or> (\<not> ex \<and> lower expd = ''false''))
         \<and> (lower expd = ''true'' \<or> lower expd = ''false''
              \<longrightarrow> (passed r \<longleftrightarrow> spec_file_exists_passes ex expd))
         \<and> message r = ''File '' @ tgt @ '' exists: '' @ str_bool ex))
   \<and> (path_exists e (resolve sd tgt) = Inl x \<longrightarrow>
        SolutionVerifier_execute_check e sd ''file_exists'' tgt expd =
          Inr ((initial_result ''file_exists'' tgt)\<lparr>message := ''Error: '' @ str_exn x\<rparr>))
   \<and> passed (initial_result ''file_exists'' tgt) = False
   \<and> (startswith tgt ''/'' \<longrightarrow> resolve sd tgt = tgt)
   \<and> (\<not> startswith tgt ''/'' \<longrightarrow> resolve sd tgt = sd @ ''/'' @ tgt)"
proof -
  let ?r = "(initial_result ''file_exists'' tgt)
           \<lparr>passed := (lower (str_bool ex) = lower expd),
            message := ''File '' @ tgt @ '' exists: '' @ str_bool ex\<rparr>"
  have a: "\<exists>r. SolutionVerifier_execute_check e sd ''file_exists'' tgt expd = Inr r
         \<and> (passed r \<longleftrightarrow> lower (str_bool ex) = lower expd)
         \<and> (passed r \<longleftrightarrow> (ex \<and> lower expd = ''true'') \<or> (\<not> ex \<and> lower expd = ''false''))
         \<and> (lower expd = ''true'' \<or> lower expd = ''false''
              \<longrightarrow> (passed r \<longleftrightarrow> spec_file_exists_passes ex expd))
         \<and> message r = ''File '' @ tgt @ '' exists: '' @ str_bool ex"
    if h: "path_exists e (resolve sd tgt) = Inr ex"
  proof -
    have r: "SolutionVerifier_execute_check e sd ''file_exists'' tgt expd = Inr ?r"
      by (simp add: execute_check_file_exists h)
    have p1: "passed ?r \<longleftrightarrow> lower (str_bool ex) = lower expd" by simp
    have p2: "passed ?r \<longleftrightarrow> (ex \<and> lower expd = ''true'') \<or> (\<not> ex \<and> lower expd = ''false'')"
      by (auto simp: lower_str_bool)
    have p3: "lower expd = ''true'' \<or> lower expd = ''false''
          \<longrightarrow> (passed ?r \<longleftrightarrow> spec_file_exists_passes ex expd)"
      by (auto simp: lower_str_bool spec_file_exists_passes_def)
    have p4: "message ?r = ''File '' @ tgt @ '' exists: '' @ str_bool ex" by simp
    from r p1 p2 p3 p4 show ?thesis by (intro exI conjI)
  qed
  have b: "path_exists e (resolve sd tgt) = Inl x \<longrightarrow>
        SolutionVerifier_execute_check e sd ''file_exists'' tgt expd =
          Inr ((initial_result ''file_exists'' tgt)\<lparr>message := ''Error: '' @ str_exn x\<rparr>)"
    by (simp add: execute_check_file_exists)
  have c: "passed (initial_result ''file_exists'' tgt) = False" by (simp add: initial_result_def)
  have p4: "startswith tgt ''/'' \<longrightarrow> resolve sd tgt = tgt" by (simp add: resolve_def)
  have p5: "\<not> startswith tgt ''/'' \<longrightarrow> resolve sd tgt = sd @ ''/'' @ tgt" by (simp add: resolve_def)
  from a have a': "path_exists e (resolve sd tgt) = Inr ex \<longrightarrow>
      (\<exists>r. SolutionVerifier_execute_check e sd ''file_exists'' tgt expd = Inr r
         \<and> (passed r \<longleftrightarrow> lower (str_bool ex) = lower expd)
         \<and> (passed r \<longleftrightarrow> (ex \<and> lower expd = ''true'') \<or> (\<not> ex \<and> lower expd = ''false''))
         \<and> (lower expd = ''true'' \<or> lower expd = ''false''
              \<longrightarrow> (passed r \<longleftrightarrow> spec_file_exists_passes ex expd))
         \<and> message r = ''File '' @ tgt @ '' exists: '' @ str_bool ex)"
    by (rule impI)
  from a' b c p4 p5 show ?thesis by (intro conjI)
qed

theorem file_exists_passes_iff_witness:
  "lower ''TRUE'' = ''true'' \<and> \<not> startswith ''report.txt'' ''/''
   \<and> resolve ''sol'' ''report.txt'' = ''sol/report.txt''
   \<and> path_exists env_report ''sol/report.txt'' = Inr True
   \<and> (\<exists>r. SolutionVerifier_execute_check env_report ''sol'' ''file_exists'' ''report.txt'' ''TRUE'' = Inr r
          \<and> passed r)
   \<and> startswith ''/etc/hosts'' ''/''
   \<and> resolve ''sol'' ''/etc/hosts'' = ''/etc/hosts''
   \<and> path_exists env_report ''/etc/hosts'' = Inr False
   \<and> lower ''False'' = ''false''
   \<and> (\<exists>r. SolutionVerifier_execute_check env_report ''sol'' ''file_exists'' ''/etc/hosts'' ''False'' = Inr r
          \<and> passed r)
   \<and> path_exists env_denied (resolve ''sol'' ''vault/key.txt'') = Inl (OSError ''[Errno 13] Permission denied'')
   \<and> SolutionVerifier_execute_check env_denied ''sol'' ''file_exists'' ''vault/key.txt'' ''false'' =
        Inr \<lparr> name = ''file_exists_vault/key.txt'',
              description = ''file_exists check for vault/key.txt'',
              passed = False, required = False,
              message = ''Error: [Errno 13] Permission denied'' \<rparr>"
proof -
  have l: "lower ''TRUE'' = ''true''" by (simp add: lower_def lower_char_def)
  have s: "\<not> startswith ''report.txt'' ''/''" by (simp add: startswith_def)
  note t1 = file_exists_passes_iff [where e = env_report and sd = "''sol''" and tgt = "''report.txt''"
      and expd = "''TRUE''" and ex = True and x = TimeoutExpired_exn]
  from t1 s have rs: "resolve ''sol'' ''report.txt'' = ''sol/report.txt''" by simp
  have ex: "path_exists env_report ''sol/report.txt'' = Inr True"
    by (simp add: path_exists_def env_report_def)
  from ex rs have ex': "path_exists env_report (resolve ''sol'' ''report.txt'') = Inr True" by simp
  from t1 [THEN conjunct1, THEN mp, OF ex']
  obtain r where r: "SolutionVerifier_execute_check env_report ''sol'' ''file_exists'' ''report.txt'' ''TRUE'' = Inr r"
    and iff: "passed r \<longleftrightarrow> (True \<and> lower ''TRUE'' = ''true'') \<or> (\<not> True \<and> lower ''TRUE'' = ''false'')"
    by (elim exE conjE)
  from iff l have "passed r" by simp
  with r have g1: "\<exists>r. SolutionVerifier_execute_check env_report ''sol'' ''file_exists'' ''report.txt'' ''TRUE'' = Inr r
          \<and> passed r" by (intro exI conjI)
  have l2: "lower ''False'' = ''false''" by (simp add: lower_def lower_char_def)
  have s2: "startswith ''/etc/hosts'' ''/''" by (simp add: startswith_def)
  note t2 = file_exists_passes_iff [where e = env_report and sd = "''sol''" and tgt = "''/etc/hosts''"
      and expd = "''False''" and ex = False and x = TimeoutExpired_exn]
  from t2 s2 have rs2: "resolve ''sol'' ''/etc/hosts'' = ''/etc/hosts''" by simp
  have nex: "path_exists env_report ''/etc/hosts'' = Inr False"
    by (simp add: path_exists_def env_report_def)
  from nex rs2 have nex': "path_exists env_report (resolve ''sol'' ''/etc/hosts'') = Inr False" by simp
  from t2 [THEN conjunct1, THEN mp, OF nex']
  obtain r2 where r2: "SolutionVerifier_execute_check env_report ''sol'' ''file_exists'' ''/etc/hosts'' ''False'' = Inr r2"
    and iff2: "passed r2 \<longleftrightarrow> (False \<and> lower ''False'' = ''true'') \<or> (\<not> False \<and> lower ''False'' = ''false'')"
    by (elim exE conjE)
  from iff2 l2 have "passed r2" by simp
  with r2 have g2: "\<exists>r. SolutionVerifier_execute_check env_report ''sol'' ''file_exists'' ''/etc/hosts'' ''False'' = Inr r
          \<and> passed r" by (intro exI conjI)
  have dn: "path_exists env_denied (resolve ''sol'' ''vault/key.txt'') = Inl (OSError ''[Errno 13] Permission denied'')"
    by (simp add: path_exists_def env_denied_def resolve_def startswith_def)
  note t3 = file_exists_passes_iff [where e = env_denied and sd = "''sol''" and tgt = "''vault/key.txt''"
      and expd = "''false''" and ex = False and x = "OSError ''[Errno 13] Permission denied''"]
  from t3 [THEN conjunct2, THEN conjunct1, THEN mp, OF dn]
  have g3: "SolutionVerifier_execute_check env_denied ''sol'' ''file_exists'' ''vault/key.txt'' ''false'' =
        Inr \<lparr> name = ''file_exists_vault/key.txt'',
              description = ''file_exists check for vault/key.txt'',
              passed = False, required = False,
              message = ''Error: [Errno 13] Permission denied'' \<rparr>"
    by (simp add: initial_result_def)
  from l s rs ex g1 s2 rs2 nex l2 g2 dn g3 show ?thesis by (intro conjI)
qed

text \<open>
  The specification's formula differs on an \<open>expected\<close> that is neither spelling: with
  \<open>expected = ""\<close> (the default of an absent key) and a missing file the formula holds,
  and the check fails.
\<close>

theorem file_exists_counterexample:
  "path_exists env_empty (resolve ''sol'' ''report.txt'') = Inr False
   \<and> SolutionVerifier_execute_check env_empty ''sol'' ''file_exists'' ''report.txt'' [] =
     Inr \<lparr> name = ''file_exists_report.txt'',
           description = ''file_exists check for report.txt'',
           passed = False, required = False,
           message = ''File report.txt exists: False'' \<rparr>
   \<and> spec_file_exists_passes False []"
  by (simp add: execute_check_file_exists initial_result_def lower_str_bool path_exists_def
      env_empty_def spec_file_exists_passes_def lower_def str_bool_def)

subsection \<open>output\_contains checks\<close>

lemma lower_nil: "lower [] = []" by (simp add: lower_def)

lemma contains_nil: "contains [] hay"
  by (cases hay) simp_all

lemma command_content_cases:
  "command_content e tgt res =
    (if looks_like_command tgt then
       (case run_shell e tgt of Completed out err \<Rightarrow> (Some (out @ err), res)
        | Raised x \<Rightarrow> (None, res\<lparr>message :=
             (if x = TimeoutExpired_exn then ''Command timed out: '' @ take 50 tgt
              else ''Command failed: '' @ str_exn x)\<rparr>))
     else (None, res))"
  by (simp add: command_content_def split: cmd_result.splits)

text \<open>The \<open>output_contains\<close> branch once the command stage gave no content.\<close>

lemma output_contains_fallback:
  assumes "fst (command_content e tgt (initial_result ''output_contains'' tgt)) = None"
  shows "SolutionVerifier_execute_check e sd ''output_contains'' tgt expd =
     Inr (case fs e (resolve sd tgt) of
            Missing \<Rightarrow> (initial_result ''output_contains'' tgt)
                         \<lparr>message := ''Could not get content from: '' @ take 50 tgt\<rparr>
          | Unreadable m \<Rightarrow> (initial_result ''output_contains'' tgt)\<lparr>message := ''Error: '' @ m\<rparr>
          | Text c \<Rightarrow>
              if c \<noteq> [] then (initial_result ''output_contains'' tgt)
                   \<lparr>passed := contains (lower expd) (lower c),
                    message := sq @ expd @ sq @ '' found: '' @ str_bool (contains (lower expd) (lower c))\<rparr>
              else (initial_result ''output_contains'' tgt)
                   \<lparr>message := ''Could not get content from: '' @ take 50 tgt\<rparr>
          | Garbled c \<Rightarrow>
              if c \<noteq> [] then (initial_result ''output_contains'' tgt)
                   \<lparr>passed := contains (lower expd) (lower c),
                    message := sq @ expd @ sq @ '' found: '' @ str_bool (contains (lower expd) (lower c))\<rparr>
              else (initial_result ''output_contains'' tgt)
                   \<lparr>message := ''Could not get content from: '' @ take 50 tgt\<rparr>
          | Inaccessible m \<Rightarrow> (initial_result ''output_contains'' tgt)\<lparr>message := ''Error: '' @ m\<rparr>)"
proof -
  obtain c0 r1 where cc: "command_content e tgt (initial_result ''output_contains'' tgt) = (c0, r1)"
    by (cases "command_content e tgt (initial_result ''output_contains'' tgt)")
  with assms have c0: "c0 = None" by simp
  have r1: "r1 = initial_result ''output_contains'' tgt \<or> (\<exists>m. r1 = (initial_result ''output_contains'' tgt)\<lparr>message := m\<rparr>)"
    using cc by (auto simp: command_content_cases split: if_splits cmd_result.splits)
  then have upd: "\<And>m. r1\<lparr>message := m\<rparr> = (initial_result ''output_contains'' tgt)\<lparr>message := m\<rparr>"
         "\<And>m p. r1\<lparr>passed := p, message := m\<rparr> = (initial_result ''output_contains'' tgt)\<lparr>passed := p, message := m\<rparr>"
    by auto
  show ?thesis
    by (cases "fs e (resolve sd tgt)")
       (simp_all add: SolutionVerifier_execute_check_def execute_body_def Let_def cc c0 upd
          read_if_exists_def path_exists_def read_text_ignore_def)
qed

lemma output_contains_command_output:
  assumes "looks_like_command tgt" "run_shell e tgt = Completed out err"
  shows "SolutionVerifier_execute_check e sd ''output_contains'' tgt expd =
     Inr (if out @ err \<noteq> [] then (initial_result ''output_contains'' tgt)
                   \<lparr>passed := contains (lower expd) (lower (out @ err)),
                    message := sq @ expd @ sq @ '' found: '' @ str_bool (contains (lower expd) (lower (out @ err)))\<rparr>
          else (initial_result ''output_contains'' tgt)
                   \<lparr>message := ''Could not get content from: '' @ take 50 tgt\<rparr>)"
  using assms
  by (simp add: SolutionVerifier_execute_check_def execute_body_def Let_def command_content_def)

lemma looks_like_command_cat: "looks_like_command (''cat '' @ rest)"
  by (simp add: looks_like_command_def)

text \<open>
  C9. An \<open>output_contains\<close> check whose captured content is the empty string (a command
  that completes with empty stdout and stderr, or a file read as empty text when no
  command gave content) fails with the message \<open>Could not get content from: ...\<close>, for
  every \<open>expected\<close>: the content is tested for truthiness. This holds for the empty
  \<open>expected\<close> too, although the substring test \<open>expected.lower() in content.lower()\<close> is
  true for it on every content.
\<close>

theorem output_contains_empty_content_fails:
  assumes "(looks_like_command tgt \<and> (\<exists>out err. run_shell e tgt = Completed out err \<and> out @ err = []))
         \<or> ((\<not> looks_like_command tgt \<or> (\<exists>x. run_shell e tgt = Raised x))
             \<and> (fs e (resolve sd tgt) = Text [] \<or> fs e (resolve sd tgt) = Garbled []))"
  shows "SolutionVerifier_execute_check e sd ''output_contains'' tgt expd =
           Inr \<lparr> name = ''output_contains_'' @ take 20 tgt,
                 description = ''output_contains check for '' @ tgt,
                 passed = False,
                 required = False,
                 message = ''Could not get content from: '' @ take 50 tgt \<rparr>
         \<and> contains (lower []) (lower content)"
proof -
  from assms consider
      (fromcmd) out err where "looks_like_command tgt" "run_shell e tgt = Completed out err" "out @ err = []"
    | (fromfile) "\<not> looks_like_command tgt \<or> (\<exists>x. run_shell e tgt = Raised x)"
        "fs e (resolve sd tgt) = Text [] \<or> fs e (resolve sd tgt) = Garbled []"
    by blast
  then have "SolutionVerifier_execute_check e sd ''output_contains'' tgt expd =
           Inr ((initial_result ''output_contains'' tgt)
                  \<lparr>message := ''Could not get content from: '' @ take 50 tgt\<rparr>)"
  proof cases
    case fromcmd
    then show ?thesis
      using output_contains_command_output [of tgt e out err sd expd] by simp
  next
    case fromfile
    from fromfile(1) have "fst (command_content e tgt (initial_result ''output_contains'' tgt)) = None"
      by (auto simp: command_content_cases)
    from output_contains_fallback [OF this, of sd expd] fromfile(2) show ?thesis by auto
  qed
  then show ?thesis
    by (simp add: initial_result_def lower_nil contains_nil)
qed

theorem output_contains_empty_content_fails_witness:
  "looks_like_command ''cat analysis.txt''
   \<and> run_shell env_empty ''cat analysis.txt'' = Completed [] []
   \<and> SolutionVerifier_execute_check env_empty ''sol'' ''output_contains'' ''cat analysis.txt'' [] =
           Inr \<lparr> name = ''output_contains_cat analysis.txt'',
                 description = ''output_contains check for cat analysis.txt'',
                 passed = False,
                 required = False,
                 message = ''Could not get content from: cat analysis.txt'' \<rparr>"
proof -
  have c: "looks_like_command ''cat analysis.txt''"
    using looks_like_command_cat [of "''analysis.txt''"] by simp
  have r: "run_shell env_empty ''cat analysis.txt'' = Completed [] []"
    by (simp add: env_empty_def)
  from c r have h: "(looks_like_command ''cat analysis.txt'' \<and> (\<exists>out err. run_shell env_empty ''cat analysis.txt'' = Completed out err \<and> out @ err = []))
         \<or> ((\<not> looks_like_command ''cat analysis.txt'' \<or> (\<exists>x. run_shell env_empty ''cat analysis.txt'' = Raised x))
             \<and> (fs env_empty (resolve ''sol'' ''cat analysis.txt'') = Text [] \<or> fs env_empty (resolve ''sol'' ''cat analysis.txt'') = Garbled []))"
    by simp
  from output_contains_empty_content_fails [OF h, of "[]" "[]"] c r show ?thesis by simp
qed

text \<open>
  C4 (as the code has it). \<open>_execute_check\<close> returns a result for every check type,
  target and expected string and every environment: it never raises. For
  \<open>output_contains\<close> with a target that is not run as a command, a target file that
  cannot be examined or read gives a failed outcome with the message \<open>Error: ...\<close>
  carrying the text of the error. A command that raises, by a timeout or otherwise, gives
  no content, and the check falls back to reading the target as a path: the outcome then
  passes exactly when a file exists at that path whose text is not empty and contains
  \<open>expected\<close> without regard to case; it is a failed outcome when nothing exists there
  or the read fails.
\<close>

theorem output_contains_failure_outcomes:
  "(\<exists>r. SolutionVerifier_execute_check e sd ct tgt expd = Inr r)
   \<and> (\<not> looks_like_command tgt
        \<and> (fs e (resolve sd tgt) = Unreadable m \<or> fs e (resolve sd tgt) = Inaccessible m)
       \<longrightarrow> SolutionVerifier_execute_check e sd ''output_contains'' tgt expd =
             Inr ((initial_result ''output_contains'' tgt)\<lparr>message := ''Error: '' @ m\<rparr>))
   \<and> (looks_like_command tgt \<and> run_shell e tgt = Raised x
       \<longrightarrow> (\<exists>r. SolutionVerifier_execute_check e sd ''output_contains'' tgt expd = Inr r
              \<and> (passed r \<longleftrightarrow>
                   (\<exists>c. (fs e (resolve sd tgt) = Text c \<or> fs e (resolve sd tgt) = Garbled c)
                        \<and> c \<noteq> [] \<and> contains (lower expd) (lower c)))))
   \<and> (looks_like_command tgt \<and> run_shell e tgt = Raised x
        \<and> (fs e (resolve sd tgt) = Missing \<or> fs e (resolve sd tgt) = Unreadable m
             \<or> fs e (resolve sd tgt) = Inaccessible m)
       \<longrightarrow> (\<exists>r. SolutionVerifier_execute_check e sd ''output_contains'' tgt expd = Inr r
              \<and> \<not> passed r))
   \<and> passed (initial_result ''output_contains'' tgt) = False"
proof -
  let ?run = "SolutionVerifier_execute_check e sd ''output_contains'' tgt expd"
  let ?init = "initial_result ''output_contains'' tgt"
  have none: "fst (command_content e tgt ?init) = None"
    if "\<not> looks_like_command tgt \<or> (\<exists>x. run_shell e tgt = Raised x)"
    using that by (auto simp: command_content_cases)
  have fb: "?run = Inr (case fs e (resolve sd tgt) of
            Missing \<Rightarrow> ?init\<lparr>message := ''Could not get content from: '' @ take 50 tgt\<rparr>
          | Unreadable m \<Rightarrow> ?init\<lparr>message := ''Error: '' @ m\<rparr>
          | Text c \<Rightarrow>
              if c \<noteq> [] then ?init
                   \<lparr>passed := contains (lower expd) (lower c),
                    message := sq @ expd @ sq @ '' found: '' @ str_bool (contains (lower expd) (lower c))\<rparr>
              else ?init\<lparr>message := ''Could not get content from: '' @ take 50 tgt\<rparr>
          | Garbled c \<Rightarrow>
              if c \<noteq> [] then ?init
                   \<lparr>passed := contains (lower expd) (lower c),
                    message := sq @ expd @ sq @ '' found: '' @ str_bool (contains (lower expd) (lower c))\<rparr>
              else ?init\<lparr>message := ''Could not get content from: '' @ take 50 tgt\<rparr>
          | Inaccessible m \<Rightarrow> ?init\<lparr>message := ''Error: '' @ m\<rparr>)"
    if "\<not> looks_like_command tgt \<or> (\<exists>x. run_shell e tgt = Raised x)"
    using output_contains_fallback [OF none [OF that]] .
  have p0: "passed ?init = False" by (simp add: initial_result_def)
  have a: "\<exists>r. SolutionVerifier_execute_check e sd ct tgt expd = Inr r"
    by (rule execute_check_returns)
  have b: "\<not> looks_like_command tgt
        \<and> (fs e (resolve sd tgt) = Unreadable m \<or> fs e (resolve sd tgt) = Inaccessible m)
       \<longrightarrow> ?run = Inr (?init\<lparr>message := ''Error: '' @ m\<rparr>)"
    using fb by auto
  have c: "looks_like_command tgt \<and> run_shell e tgt = Raised x
       \<longrightarrow> (\<exists>r. ?run = Inr r
              \<and> (passed r \<longleftrightarrow>
                   (\<exists>c. (fs e (resolve sd tgt) = Text c \<or> fs e (resolve sd tgt) = Garbled c)
                        \<and> c \<noteq> [] \<and> contains (lower expd) (lower c))))"
  proof
    assume h: "looks_like_command tgt \<and> run_shell e tgt = Raised x"
    then have "\<not> looks_like_command tgt \<or> (\<exists>x. run_shell e tgt = Raised x)" by blast
    note f = fb [OF this]
    show "\<exists>r. ?run = Inr r
              \<and> (passed r \<longleftrightarrow>
                   (\<exists>c. (fs e (resolve sd tgt) = Text c \<or> fs e (resolve sd tgt) = Garbled c)
                        \<and> c \<noteq> [] \<and> contains (lower expd) (lower c)))"
      by (cases "fs e (resolve sd tgt)") (simp_all add: f p0)
  qed
  have d: "looks_like_command tgt \<and> run_shell e tgt = Raised x
        \<and> (fs e (resolve sd tgt) = Missing \<or> fs e (resolve sd tgt) = Unreadable m
             \<or> fs e (resolve sd tgt) = Inaccessible m)
       \<longrightarrow> (\<exists>r. ?run = Inr r \<and> \<not> passed r)"
  proof
    assume h: "looks_like_command tgt \<and> run_shell e tgt = Raised x
        \<and> (fs e (resolve sd tgt) = Missing \<or> fs e (resolve sd tgt) = Unreadable m
             \<or> fs e (resolve sd tgt) = Inaccessible m)"
    then have "\<not> looks_like_command tgt \<or> (\<exists>x. run_shell e tgt = Raised x)" by blast
    note f = fb [OF this]
    from h show "\<exists>r. ?run = Inr r \<and> \<not> passed r"
      by (auto simp: f p0)
  qed
  from a b c d p0 show ?thesis by (intro conjI)
qed

theorem output_contains_failure_outcomes_witness:
  "\<not> looks_like_command ''notes''
   \<and> fs env_denied (resolve ''sol'' ''notes'') = Unreadable ''[Errno 21] Is a directory''
   \<and> SolutionVerifier_execute_check env_denied ''sol'' ''output_contains'' ''notes'' ''502'' =
        Inr \<lparr> name = ''output_contains_notes'',
              description = ''output_contains check for notes'',
              passed = False, required = False,
              message = ''Error: [Errno 21] Is a directory'' \<rparr>
   \<and> looks_like_command ''cat y'' \<and> run_shell env_timeout ''cat y'' = Raised TimeoutExpired_exn
   \<and> fs env_timeout (resolve ''sol'' ''cat y'') = Missing
   \<and> (\<exists>r. SolutionVerifier_execute_check env_timeout ''sol'' ''output_contains'' ''cat y'' ''502'' = Inr r
          \<and> \<not> passed r)
   \<and> fs env_timeout (resolve ''sol'' ''cat x'') = Text ''status 502''
   \<and> contains (lower ''502'') (lower ''status 502'')
   \<and> (\<exists>r. SolutionVerifier_execute_check env_timeout ''sol'' ''output_contains'' ''cat x'' ''502'' = Inr r
          \<and> passed r)"
proof -
  have n: "\<not> looks_like_command ''notes''" by (simp add: looks_like_command_def)
  have f0: "fs env_denied (resolve ''sol'' ''notes'') = Unreadable ''[Errno 21] Is a directory''"
    by (simp add: env_denied_def resolve_def startswith_def)
  from n f0 have h0: "\<not> looks_like_command ''notes''
        \<and> (fs env_denied (resolve ''sol'' ''notes'') = Unreadable ''[Errno 21] Is a directory''
            \<or> fs env_denied (resolve ''sol'' ''notes'') = Inaccessible ''[Errno 21] Is a directory'')"
    by simp
  from output_contains_failure_outcomes [where e = env_denied and sd = "''sol''" and ct = "''output_contains''"
      and tgt = "''notes''" and expd = "''502''" and m = "''[Errno 21] Is a directory''"
      and x = TimeoutExpired_exn, THEN conjunct2, THEN conjunct1, THEN mp, OF h0]
  have g0: "SolutionVerifier_execute_check env_denied ''sol'' ''output_contains'' ''notes'' ''502'' =
        Inr \<lparr> name = ''output_contains_notes'',
              description = ''output_contains check for notes'',
              passed = False, required = False,
              message = ''Error: [Errno 21] Is a directory'' \<rparr>"
    by (simp add: initial_result_def)
  have c1: "looks_like_command ''cat y''" using looks_like_command_cat [of "''y''"] by simp
  have c2: "looks_like_command ''cat x''" using looks_like_command_cat [of "''x''"] by simp
  have r: "\<And>t. run_shell env_timeout t = Raised TimeoutExpired_exn" by (simp add: env_timeout_def)
  have f1: "fs env_timeout (resolve ''sol'' ''cat y'') = Missing"
    by (simp add: env_timeout_def resolve_def startswith_def)
  from c1 r f1 have h1: "looks_like_command ''cat y'' \<and> run_shell env_timeout ''cat y'' = Raised TimeoutExpired_exn
        \<and> (fs env_timeout (resolve ''sol'' ''cat y'') = Missing
             \<or> fs env_timeout (resolve ''sol'' ''cat y'') = Unreadable []
             \<or> fs env_timeout (resolve ''sol'' ''cat y'') = Inaccessible [])"
    by simp
  from output_contains_failure_outcomes [where e = env_timeout and sd = "''sol''" and ct = "''output_contains''"
      and tgt = "''cat y''" and expd = "''502''" and m = "[]"
      and x = TimeoutExpired_exn, THEN conjunct2, THEN conjunct2, THEN conjunct2, THEN conjunct1,
      THEN mp, OF h1]
  have g1: "\<exists>r. SolutionVerifier_execute_check env_timeout ''sol'' ''output_contains'' ''cat y'' ''502'' = Inr r
          \<and> \<not> passed r" .
  have f2: "fs env_timeout (resolve ''sol'' ''cat x'') = Text ''status 502''"
    by (simp add: env_timeout_def resolve_def startswith_def)
  have l: "contains (lower ''502'') (lower ''status 502'')"
    by (simp add: lower_def lower_char_def)
  from c2 r have h2: "looks_like_command ''cat x'' \<and> run_shell env_timeout ''cat x'' = Raised TimeoutExpired_exn"
    by simp
  from output_contains_failure_outcomes [where e = env_timeout and sd = "''sol''" and ct = "''output_contains''"
      and tgt = "''cat x''" and expd = "''502''" and m = "[]"
      and x = TimeoutExpired_exn, THEN conjunct2, THEN conjunct2, THEN conjunct1, THEN mp, OF h2]
  obtain r2 where r2: "SolutionVerifier_execute_check env_timeout ''sol'' ''output_contains'' ''cat x'' ''502'' = Inr r2"
    and p2: "passed r2 \<longleftrightarrow>
                   (\<exists>c. (fs env_timeout (resolve ''sol'' ''cat x'') = Text c
                         \<or> fs env_timeout (resolve ''sol'' ''cat x'') = Garbled c)
                        \<and> c \<noteq> [] \<and> contains (lower ''502'') (lower c))"
    by (elim exE conjE)
  from f2 l have "\<exists>c. (fs env_timeout (resolve ''sol'' ''cat x'') = Text c
                         \<or> fs env_timeout (resolve ''sol'' ''cat x'') = Garbled c)
                        \<and> c \<noteq> [] \<and> contains (lower ''502'') (lower c)"
    by (intro exI [of _ "''status 502''"]) simp
  with p2 have "passed r2" by (rule iffD2)
  with r2 have g2: "\<exists>r. SolutionVerifier_execute_check env_timeout ''sol'' ''output_contains'' ''cat x'' ''502'' = Inr r
          \<and> passed r" by (intro exI conjI)
  from n f0 g0 c1 r f1 g1 f2 l g2 show ?thesis by (intro conjI)
qed

text \<open>
  A timed-out command does not always give a failed outcome: when the solution directory
  holds a file whose name is the command text, the fallback reads it and the check passes.
\<close>

theorem output_contains_timeout_counterexample:
  "looks_like_command ''cat x'' \<and> run_shell env_timeout ''cat x'' = Raised TimeoutExpired_exn
   \<and> SolutionVerifier_execute_check env_timeout ''sol'' ''output_contains'' ''cat x'' ''502'' =
        Inr \<lparr> name = ''output_contains_cat x'',
              description = ''output_contains check for cat x'',
              passed = True, required = False,
              message = sq @ ''502'' @ sq @ '' found: True'' \<rparr>"
proof -
  have c1: "looks_like_command ''cat x''" using looks_like_command_cat [of "''x''"] by simp
  have r: "run_shell env_timeout ''cat x'' = Raised TimeoutExpired_exn" by (simp add: env_timeout_def)
  have f: "fs env_timeout (resolve ''sol'' ''cat x'') = Text ''status 502''"
    by (simp add: env_timeout_def resolve_def startswith_def)
  have n: "fst (command_content env_timeout ''cat x'' (initial_result ''output_contains'' ''cat x'')) = None"
    using c1 r by (simp add: command_content_cases)
  have l: "contains (lower ''502'') (lower ''status 502'')"
    by (simp add: lower_def lower_char_def)
  from output_contains_fallback [OF n, of "''sol''" "''502''"] f l c1 r
  show ?thesis by (simp add: initial_result_def str_bool_def)
qed

subsection \<open>Canary token\<close>








subsection \<open>PatternVerifier: run\_check\<close>

lemma spec_verdict_vulnerable: "spec_verdict hv hf = (if hv then Fail else Pass)"
  by (simp add: spec_verdict_def)

lemma run_check_skip:
  "SecurityVerifier_read_file e bp (file_path c) = Inr None \<Longrightarrow>
   SecurityVerifier_run_check e bp c =
     Inr \<lparr> check = c, result = Skip, omessage = ''File not found: '' @ file_path c \<rparr>"
  by (simp add: SecurityVerifier_run_check_def)

lemma run_check_verdict:
  assumes "SecurityVerifier_read_file e bp (file_path c) = Inr (Some content)"
    and "SecurityVerifier_check_pattern e content (vulnerable_pattern c) = Inr hv"
    and "has_fix_of e content (fixed_pattern c) = Inr hf"
  shows "\<exists>oc. SecurityVerifier_run_check e bp c = Inr oc \<and> check oc = c
           \<and> result oc = spec_verdict hv hf"
  using assms by (simp add: SecurityVerifier_run_check_def spec_verdict_def)

lemma run_check_no_vulnerable_pattern:
  assumes "vulnerable_pattern c = None"
    and "SecurityVerifier_read_file e bp (file_path c) = Inr (Some content)"
  shows "SecurityVerifier_run_check e bp c =
           Inl (TypeError ''first argument must be string or compiled pattern'')"
  using assms by (simp add: SecurityVerifier_run_check_def SecurityVerifier_check_pattern_def)

text \<open>
  C2 (as the code has it). When the target file is read as text, and the vulnerable
  pattern and the fix pattern are searched without the engine raising, \<open>run_check\<close>
  returns an outcome for the check whose result is the verdict of the four-way table:
  FAIL for vulnerable and no fix, PASS for fix and not vulnerable, PASS for neither, FAIL
  for both. The verdict is FAIL exactly when the vulnerable pattern is found, so it is the
  table's verdict for any reading of the fix column. Both searches use the flags MULTILINE
  and DOTALL; a fix pattern that is \<open>None\<close> or empty counts as not found. When the file
  is missing, or exists and cannot be opened or read, \<open>run_check\<close> returns SKIP and does
  not raise, whatever the patterns are.
\<close>

theorem run_check_decision_table:
  "(fs e (os_path_join bp (file_path c)) = Text content
      \<and> SecurityVerifier_check_pattern e content (vulnerable_pattern c) = Inr hv
      \<and> has_fix_of e content (fixed_pattern c) = Inr hf
     \<longrightarrow> (\<exists>oc. SecurityVerifier_run_check e bp c = Inr oc \<and> check oc = c
            \<and> result oc = spec_verdict hv hf
            \<and> (hv \<and> \<not> hf \<longrightarrow> result oc = Fail)
            \<and> (hf \<and> \<not> hv \<longrightarrow> result oc = Pass)
            \<and> (\<not> hv \<and> \<not> hf \<longrightarrow> result oc = Pass)
            \<and> (hv \<and> hf \<longrightarrow> result oc = Fail)
            \<and> (\<forall>any_fix. result oc = spec_verdict hv any_fix)))
   \<and> SecurityVerifier_check_pattern e content (Some p) = re_search e p content {MULTILINE, DOTALL}
   \<and> (fixed_pattern c = Some p \<and> p \<noteq> []
        \<longrightarrow> has_fix_of e content (fixed_pattern c) = re_search e p content {MULTILINE, DOTALL})
   \<and> (fixed_pattern c = None \<or> fixed_pattern c = Some []
        \<longrightarrow> has_fix_of e content (fixed_pattern c) = Inr False)
   \<and> (fs e (os_path_join bp (file_path c)) = Missing
        \<or> fs e (os_path_join bp (file_path c)) = Unreadable m
        \<or> fs e (os_path_join bp (file_path c)) = Inaccessible m
        \<longrightarrow> SecurityVerifier_run_check e bp c =
             Inr \<lparr> check = c, result = Skip, omessage = ''File not found: '' @ file_path c \<rparr>)"
proof -
  have a: "\<exists>oc. SecurityVerifier_run_check e bp c = Inr oc \<and> check oc = c
            \<and> result oc = spec_verdict hv hf
            \<and> (hv \<and> \<not> hf \<longrightarrow> result oc = Fail)
            \<and> (hf \<and> \<not> hv \<longrightarrow> result oc = Pass)
            \<and> (\<not> hv \<and> \<not> hf \<longrightarrow> result oc = Pass)
            \<and> (hv \<and> hf \<longrightarrow> result oc = Fail)
            \<and> (\<forall>any_fix. result oc = spec_verdict hv any_fix)"
    if h: "fs e (os_path_join bp (file_path c)) = Text content"
      "SecurityVerifier_check_pattern e content (vulnerable_pattern c) = Inr hv"
      "has_fix_of e content (fixed_pattern c) = Inr hf"
  proof -
    from h(1) have rd: "SecurityVerifier_read_file e bp (file_path c) = Inr (Some content)"
      by (simp add: SecurityVerifier_read_file_def)
    from run_check_verdict [OF rd h(2) h(3)] obtain oc where
      oc: "SecurityVerifier_run_check e bp c = Inr oc" "check oc = c" "result oc = spec_verdict hv hf"
      by blast
    from oc(3) have rows: "hv \<and> \<not> hf \<longrightarrow> result oc = Fail" "hf \<and> \<not> hv \<longrightarrow> result oc = Pass"
      "\<not> hv \<and> \<not> hf \<longrightarrow> result oc = Pass" "hv \<and> hf \<longrightarrow> result oc = Fail"
      "\<forall>any_fix. result oc = spec_verdict hv any_fix"
      by (simp_all add: spec_verdict_vulnerable)
    with oc show ?thesis by blast
  qed
  have b: "SecurityVerifier_check_pattern e content (Some p) = re_search e p content {MULTILINE, DOTALL}"
    by (simp add: SecurityVerifier_check_pattern_def)
  have c: "fixed_pattern c = Some p \<and> p \<noteq> []
        \<longrightarrow> has_fix_of e content (fixed_pattern c) = re_search e p content {MULTILINE, DOTALL}"
    by (simp add: has_fix_of_def SecurityVerifier_check_pattern_def)
  have d: "fixed_pattern c = None \<or> fixed_pattern c = Some []
        \<longrightarrow> has_fix_of e content (fixed_pattern c) = Inr False"
    by (auto simp: has_fix_of_def)
  have e: "fs e (os_path_join bp (file_path c)) = Missing
        \<or> fs e (os_path_join bp (file_path c)) = Unreadable m
        \<or> fs e (os_path_join bp (file_path c)) = Inaccessible m
        \<longrightarrow> SecurityVerifier_run_check e bp c =
             Inr \<lparr> check = c, result = Skip, omessage = ''File not found: '' @ file_path c \<rparr>"
    by (auto simp: SecurityVerifier_read_file_def run_check_skip)
  from a b c d e show ?thesis by blast
qed

lemma env_literal_config: "fs env_literal (os_path_join ''/srv/api'' ''config.py'') =
    Text ''SECRET_KEY = os.environ.get(1)''"
  by (simp add: env_literal_def os_path_join_def startswith_def)

theorem run_check_decision_table_witness:
  "fs env_literal (os_path_join ''/srv/api'' (file_path check_literal))
       = Text ''SECRET_KEY = os.environ.get(1)''
   \<and> SecurityVerifier_check_pattern env_literal ''SECRET_KEY = os.environ.get(1)''
       (vulnerable_pattern check_literal) = Inr False
   \<and> has_fix_of env_literal ''SECRET_KEY = os.environ.get(1)'' (fixed_pattern check_literal) = Inr True
   \<and> (\<exists>oc. SecurityVerifier_run_check env_literal ''/srv/api'' check_literal = Inr oc
          \<and> result oc = Pass)
   \<and> fixed_pattern check_literal = Some ''environ'' \<and> ''environ'' \<noteq> []
   \<and> has_fix_of env_literal ''SECRET_KEY = os.environ.get(1)'' (fixed_pattern check_literal)
       = re_search env_literal ''environ'' ''SECRET_KEY = os.environ.get(1)'' {MULTILINE, DOTALL}
   \<and> fixed_pattern check_no_fixed_pattern = None
   \<and> has_fix_of env_literal ''SECRET_KEY = os.environ.get(1)'' (fixed_pattern check_no_fixed_pattern)
       = Inr False
   \<and> fs env_literal (os_path_join ''/srv/other'' (file_path check_literal)) = Missing
   \<and> SecurityVerifier_run_check env_literal ''/srv/other'' check_literal =
        Inr \<lparr> check = check_literal, result = Skip,
              omessage = ''File not found: '' @ file_path check_literal \<rparr>"
proof -
  let ?content = "''SECRET_KEY = os.environ.get(1)''"
  have fp: "file_path check_literal = ''config.py''" by (simp add: check_literal_def)
  have tx: "fs env_literal (os_path_join ''/srv/api'' (file_path check_literal)) = Text ?content"
    by (simp add: fp env_literal_config)
  note t = run_check_decision_table [where e = env_literal and bp = "''/srv/api''" and c = check_literal
      and content = ?content and hv = False and hf = True and p = "''environ''" and m = "[]"]
  have hv: "SecurityVerifier_check_pattern env_literal ?content (vulnerable_pattern check_literal) = Inr False"
    by (simp add: SecurityVerifier_check_pattern_def check_literal_def env_literal_def)
  have hf: "has_fix_of env_literal ?content (fixed_pattern check_literal) = Inr True"
    by (simp add: has_fix_of_def SecurityVerifier_check_pattern_def check_literal_def env_literal_def)
  from tx hv hf have pre: "fs env_literal (os_path_join ''/srv/api'' (file_path check_literal)) = Text ?content
      \<and> SecurityVerifier_check_pattern env_literal ?content (vulnerable_pattern check_literal) = Inr False
      \<and> has_fix_of env_literal ?content (fixed_pattern check_literal) = Inr True"
    by (intro conjI)
  from t [THEN conjunct1, THEN mp, OF pre]
  obtain oc where oc: "SecurityVerifier_run_check env_literal ''/srv/api'' check_literal = Inr oc"
    and row: "True \<and> \<not> False \<longrightarrow> result oc = Pass"
    by (elim exE conjE)
  from row have "result oc = Pass" by simp
  with oc have g: "\<exists>oc. SecurityVerifier_run_check env_literal ''/srv/api'' check_literal = Inr oc
          \<and> result oc = Pass" by (intro exI conjI)
  have fx: "fixed_pattern check_literal = Some ''environ''" by (simp add: check_literal_def)
  have ne: "''environ'' \<noteq> []" by simp
  from fx ne have "fixed_pattern check_literal = Some ''environ'' \<and> ''environ'' \<noteq> []" by (rule conjI)
  with t [THEN conjunct2, THEN conjunct2, THEN conjunct1]
  have fl: "has_fix_of env_literal ?content (fixed_pattern check_literal)
       = re_search env_literal ''environ'' ?content {MULTILINE, DOTALL}"
    by (rule mp)
  have nf: "fixed_pattern check_no_fixed_pattern = None" by (simp add: check_no_fixed_pattern_def)
  then have "fixed_pattern check_no_fixed_pattern = None \<or> fixed_pattern check_no_fixed_pattern = Some []"
    by (rule disjI1)
  with run_check_decision_table [where e = env_literal and bp = "''/srv/api''" and c = check_no_fixed_pattern
      and content = ?content and hv = False and hf = True and p = "''environ''" and m = "[]",
      THEN conjunct2, THEN conjunct2, THEN conjunct2, THEN conjunct1]
  have nf': "has_fix_of env_literal ?content (fixed_pattern check_no_fixed_pattern) = Inr False"
    by (rule mp)
  have ms: "fs env_literal (os_path_join ''/srv/other'' (file_path check_literal)) = Missing"
    by (simp add: fp env_literal_def os_path_join_def startswith_def)
  then have ms': "fs env_literal (os_path_join ''/srv/other'' (file_path check_literal)) = Missing
        \<or> fs env_literal (os_path_join ''/srv/other'' (file_path check_literal)) = Unreadable []
        \<or> fs env_literal (os_path_join ''/srv/other'' (file_path check_literal)) = Inaccessible []"
    by (rule disjI1)
  note u = run_check_decision_table [where e = env_literal and bp = "''/srv/other''" and c = check_literal
      and content = ?content and hv = False and hf = True and p = "''environ''" and m = "[]"]
  from u [THEN conjunct2, THEN conjunct2, THEN conjunct2, THEN conjunct2] ms'
  have sk: "SecurityVerifier_run_check env_literal ''/srv/other'' check_literal =
        Inr \<lparr> check = check_literal, result = Skip,
              omessage = ''File not found: '' @ file_path check_literal \<rparr>"
    by (rule mp)
  from tx hv hf g fx ne fl nf nf' ms sk show ?thesis by (intro conjI)
qed

text \<open>
  A target file that exists does not always get a verdict of the table: a file that is
  there and cannot be read (no read permission) is skipped, with the message of a missing
  file.
\<close>

theorem run_check_unreadable_counterexample:
  "fs env_denied (os_path_join ''/srv/api'' (file_path check_literal))
      = Unreadable ''[Errno 13] Permission denied''
   \<and> path_exists env_denied (os_path_join ''/srv/api'' (file_path check_literal)) = Inr True
   \<and> SecurityVerifier_run_check env_denied ''/srv/api'' check_literal =
        Inr \<lparr> check = check_literal, result = Skip, omessage = ''File not found: config.py'' \<rparr>
   \<and> Skip \<notin> {spec_verdict True True, spec_verdict True False,
               spec_verdict False True, spec_verdict False False}"
proof -
  have fp: "file_path check_literal = ''config.py''" by (simp add: check_literal_def)
  have f: "fs env_denied (os_path_join ''/srv/api'' (file_path check_literal))
      = Unreadable ''[Errno 13] Permission denied''"
    by (simp add: fp env_denied_def os_path_join_def startswith_def)
  then have ex: "path_exists env_denied (os_path_join ''/srv/api'' (file_path check_literal)) = Inr True"
    by (simp add: path_exists_def)
  from f have "SecurityVerifier_read_file env_denied ''/srv/api'' (file_path check_literal) = Inr None"
    by (simp add: SecurityVerifier_read_file_def)
  from run_check_skip [OF this]
  have sk: "SecurityVerifier_run_check env_denied ''/srv/api'' check_literal =
        Inr \<lparr> check = check_literal, result = Skip, omessage = ''File not found: config.py'' \<rparr>"
    by (simp add: fp)
  have nv: "Skip \<notin> {spec_verdict True True, spec_verdict True False,
               spec_verdict False True, spec_verdict False False}"
    by (simp add: spec_verdict_def)
  from f ex sk nv show ?thesis by (intro conjI)
qed

text \<open>
  C10. A \<open>fixed_pattern\<close> of \<open>None\<close> is guarded: it counts as no fix evidence and the
  verdict follows the vulnerable pattern alone. A \<open>vulnerable_pattern\<close> of \<open>None\<close> is
  not: once the file is read, \<open>re.search\<close> raises \<open>TypeError\<close> and \<open>run_check\<close> raises
  with it. So, over the environments whose regular-expression engine accepts every
  pattern and whose files decode, \<open>run_check\<close> returns an outcome in every environment
  exactly when the check has a \<open>vulnerable_pattern\<close>. Every check of \<open>_define_checks\<close>
  has one, and so returns an outcome in every such environment.
\<close>

theorem run_check_total_only_with_vulnerable_pattern:
  "(fixed_pattern c = None
      \<and> SecurityVerifier_read_file e bp (file_path c) = Inr (Some content)
      \<and> SecurityVerifier_check_pattern e content (vulnerable_pattern c) = Inr hv
     \<longrightarrow> has_fix_of e content (fixed_pattern c) = Inr False
       \<and> (\<exists>oc. SecurityVerifier_run_check e bp c = Inr oc
              \<and> result oc = (if hv then Fail else Pass)))
   \<and> (vulnerable_pattern c = None
        \<and> SecurityVerifier_read_file e bp (file_path c) = Inr (Some content)
       \<longrightarrow> SecurityVerifier_run_check e bp c =
             Inl (TypeError ''first argument must be string or compiled pattern''))
   \<and> ((\<forall>e' bp'. well_behaved e' \<longrightarrow> (\<exists>oc. SecurityVerifier_run_check e' bp' c = Inr oc))
       \<longleftrightarrow> vulnerable_pattern c \<noteq> None)
   \<and> (\<forall>k \<in> set SecurityVerifier_define_checks.
         vulnerable_pattern k \<noteq> None
         \<and> (well_behaved e \<longrightarrow> (\<exists>oc. SecurityVerifier_run_check e bp k = Inr oc)))"
proof -
  have a: "has_fix_of e content (fixed_pattern c) = Inr False
       \<and> (\<exists>oc. SecurityVerifier_run_check e bp c = Inr oc
              \<and> result oc = (if hv then Fail else Pass))"
    if h: "fixed_pattern c = None"
      "SecurityVerifier_read_file e bp (file_path c) = Inr (Some content)"
      "SecurityVerifier_check_pattern e content (vulnerable_pattern c) = Inr hv"
  proof -
    from h(1) have f: "has_fix_of e content (fixed_pattern c) = Inr False"
      by (simp add: has_fix_of_def)
    from run_check_verdict [OF h(2) h(3) f] show ?thesis
      using f by (auto simp: spec_verdict_vulnerable)
  qed
  have b: "vulnerable_pattern c = None
        \<and> SecurityVerifier_read_file e bp (file_path c) = Inr (Some content)
       \<longrightarrow> SecurityVerifier_run_check e bp c =
             Inl (TypeError ''first argument must be string or compiled pattern'')"
    using run_check_no_vulnerable_pattern by blast
  have n: "vulnerable_pattern c \<noteq> None"
    if tot: "\<forall>e' bp'. well_behaved e' \<longrightarrow> (\<exists>oc. SecurityVerifier_run_check e' bp' c = Inr oc)"
  proof
    assume none: "vulnerable_pattern c = None"
    let ?e = "\<lparr> run_shell = (\<lambda>c. Completed [] []), fs = (\<lambda>p. Text []),
               re_search = (\<lambda>p c f. Inr False), tree = Directory [] \<rparr>"
    have wb: "well_behaved ?e" by (auto simp: well_behaved_def)
    have "SecurityVerifier_read_file ?e [] (file_path c) = Inr (Some [])"
      by (simp add: SecurityVerifier_read_file_def)
    from run_check_no_vulnerable_pattern [OF none this]
    have "SecurityVerifier_run_check ?e [] c =
           Inl (TypeError ''first argument must be string or compiled pattern'')" .
    moreover from tot wb obtain oc where "SecurityVerifier_run_check ?e [] c = Inr oc" by blast
    ultimately show False by simp
  qed
  have s: "\<exists>oc. SecurityVerifier_run_check e' bp' k = Inr oc"
    if h: "vulnerable_pattern k \<noteq> None" "well_behaved e'" for e' bp' k
  proof (cases "fs e' (os_path_join bp' (file_path k))")
    case Missing
    then have "SecurityVerifier_read_file e' bp' (file_path k) = Inr None"
      by (simp add: SecurityVerifier_read_file_def)
    from run_check_skip [OF this] show ?thesis by blast
  next
    case (Unreadable m)
    then have "SecurityVerifier_read_file e' bp' (file_path k) = Inr None"
      by (simp add: SecurityVerifier_read_file_def)
    from run_check_skip [OF this] show ?thesis by blast
  next
    case (Text content)
    then have rd: "SecurityVerifier_read_file e' bp' (file_path k) = Inr (Some content)"
      by (simp add: SecurityVerifier_read_file_def)
    from h(2) have total: "\<forall>p s f. \<exists>b. re_search e' p s f = Inr b"
      by (simp add: well_behaved_def)
    from h(1) obtain vp where vp: "vulnerable_pattern k = Some vp" by blast
    from total obtain hv where "re_search e' vp content {MULTILINE, DOTALL} = Inr hv" by blast
    with vp have v: "SecurityVerifier_check_pattern e' content (vulnerable_pattern k) = Inr hv"
      by (simp add: SecurityVerifier_check_pattern_def)
    have "\<exists>hf. has_fix_of e' content (fixed_pattern k) = Inr hf"
    proof (cases "fixed_pattern k")
      case None
      then have "has_fix_of e' content (fixed_pattern k) = Inr False" by (simp add: has_fix_of_def)
      then show ?thesis by blast
    next
      case (Some fp)
      from total obtain hf where "re_search e' fp content {MULTILINE, DOTALL} = Inr hf" by blast
      with Some have "has_fix_of e' content (fixed_pattern k) = Inr hf
          \<or> has_fix_of e' content (fixed_pattern k) = Inr False"
        by (simp add: has_fix_of_def SecurityVerifier_check_pattern_def)
      then show ?thesis by blast
    qed
    then obtain hf where "has_fix_of e' content (fixed_pattern k) = Inr hf" by blast
    from run_check_verdict [OF rd v this] show ?thesis by blast
  next
    case (Garbled g)
    with h(2) show ?thesis by (simp add: well_behaved_def)
  next
    case (Inaccessible m)
    then have "SecurityVerifier_read_file e' bp' (file_path k) = Inr None"
      by (simp add: SecurityVerifier_read_file_def)
    from run_check_skip [OF this] show ?thesis by blast
  qed
  have iff: "(\<forall>e' bp'. well_behaved e' \<longrightarrow> (\<exists>oc. SecurityVerifier_run_check e' bp' c = Inr oc))
       \<longleftrightarrow> vulnerable_pattern c \<noteq> None"
    using n s by blast
  have d: "\<forall>k \<in> set SecurityVerifier_define_checks. vulnerable_pattern k \<noteq> None"
    by (simp add: SecurityVerifier_define_checks_def)
  with s have d': "\<forall>k \<in> set SecurityVerifier_define_checks.
         vulnerable_pattern k \<noteq> None
         \<and> (well_behaved e \<longrightarrow> (\<exists>oc. SecurityVerifier_run_check e bp k = Inr oc))"
    by blast
  from a b iff d' show ?thesis by blast
qed

lemma env_literal_well_behaved: "well_behaved env_literal"
  by (auto simp: well_behaved_def env_literal_def)

theorem run_check_total_only_with_vulnerable_pattern_witness:
  "vulnerable_pattern check_no_vulnerable_pattern = None
   \<and> SecurityVerifier_read_file env_literal ''/srv/api'' (file_path check_no_vulnerable_pattern) =
       Inr (Some ''SECRET_KEY = os.environ.get(1)'')
   \<and> SecurityVerifier_run_check env_literal ''/srv/api'' check_no_vulnerable_pattern =
       Inl (TypeError ''first argument must be string or compiled pattern'')
   \<and> fixed_pattern check_no_fixed_pattern = None
   \<and> SecurityVerifier_check_pattern env_literal ''SECRET_KEY = os.environ.get(1)''
       (vulnerable_pattern check_no_fixed_pattern) = Inr True
   \<and> (\<exists>oc. SecurityVerifier_run_check env_literal ''/srv/api'' check_no_fixed_pattern = Inr oc
          \<and> result oc = Fail)
   \<and> well_behaved env_literal
   \<and> vulnerable_pattern (hd SecurityVerifier_define_checks) \<noteq> None
   \<and> (\<exists>oc. SecurityVerifier_run_check env_literal ''/srv/api'' (hd SecurityVerifier_define_checks)
              = Inr oc)"
proof -
  let ?content = "''SECRET_KEY = os.environ.get(1)''"
  have v: "vulnerable_pattern check_no_vulnerable_pattern = None"
    by (simp add: check_no_vulnerable_pattern_def)
  have rd: "SecurityVerifier_read_file env_literal ''/srv/api'' (file_path check_no_vulnerable_pattern) =
       Inr (Some ?content)"
    by (simp add: SecurityVerifier_read_file_def check_no_vulnerable_pattern_def env_literal_config)
  note t = run_check_total_only_with_vulnerable_pattern
    [of check_no_vulnerable_pattern env_literal "''/srv/api''" ?content False]
  from v rd have "vulnerable_pattern check_no_vulnerable_pattern = None
        \<and> SecurityVerifier_read_file env_literal ''/srv/api'' (file_path check_no_vulnerable_pattern)
            = Inr (Some ?content)" by (rule conjI)
  with t [THEN conjunct2, THEN conjunct1]
  have r: "SecurityVerifier_run_check env_literal ''/srv/api'' check_no_vulnerable_pattern =
       Inl (TypeError ''first argument must be string or compiled pattern'')"
    by (rule mp)
  have f: "fixed_pattern check_no_fixed_pattern = None" by (simp add: check_no_fixed_pattern_def)
  have rd2: "SecurityVerifier_read_file env_literal ''/srv/api'' (file_path check_no_fixed_pattern) =
       Inr (Some ?content)"
    by (simp add: SecurityVerifier_read_file_def check_no_fixed_pattern_def env_literal_config)
  have hv: "SecurityVerifier_check_pattern env_literal ?content
       (vulnerable_pattern check_no_fixed_pattern) = Inr True"
    by (simp add: SecurityVerifier_check_pattern_def check_no_fixed_pattern_def env_literal_def)
  note t2 = run_check_total_only_with_vulnerable_pattern
    [of check_no_fixed_pattern env_literal "''/srv/api''" ?content True]
  from f rd2 hv have "fixed_pattern check_no_fixed_pattern = None
      \<and> SecurityVerifier_read_file env_literal ''/srv/api'' (file_path check_no_fixed_pattern)
          = Inr (Some ?content)
      \<and> SecurityVerifier_check_pattern env_literal ?content
          (vulnerable_pattern check_no_fixed_pattern) = Inr True" by (intro conjI)
  with t2 [THEN conjunct1]
  have "has_fix_of env_literal ?content (fixed_pattern check_no_fixed_pattern) = Inr False
       \<and> (\<exists>oc. SecurityVerifier_run_check env_literal ''/srv/api'' check_no_fixed_pattern = Inr oc
              \<and> result oc = (if True then Fail else Pass))"
    by (rule mp)
  then have g: "\<exists>oc. SecurityVerifier_run_check env_literal ''/srv/api'' check_no_fixed_pattern = Inr oc
          \<and> result oc = Fail" by simp
  have mem: "hd SecurityVerifier_define_checks \<in> set SecurityVerifier_define_checks"
    by (simp add: SecurityVerifier_define_checks_def)
  from t [THEN conjunct2, THEN conjunct2, THEN conjunct2] mem
  have k: "vulnerable_pattern (hd SecurityVerifier_define_checks) \<noteq> None
         \<and> (well_behaved env_literal \<longrightarrow>
              (\<exists>oc. SecurityVerifier_run_check env_literal ''/srv/api'' (hd SecurityVerifier_define_checks)
                     = Inr oc))"
    by (rule bspec)
  from k have k1: "vulnerable_pattern (hd SecurityVerifier_define_checks) \<noteq> None" by (rule conjunct1)
  from k env_literal_well_behaved
  have k2: "\<exists>oc. SecurityVerifier_run_check env_literal ''/srv/api'' (hd SecurityVerifier_define_checks)
              = Inr oc"
    by blast
  from v rd r f hv g env_literal_well_behaved k1 k2 show ?thesis by (intro conjI)
qed

subsection \<open>PatternVerifier: calculate\_score\<close>

lemma run_checks_map_check:
  "run_checks e bp cs = Inr ocs \<Longrightarrow> map check ocs = cs"
proof (induction cs arbitrary: ocs)
  case Nil
  then show ?case by simp
next
  case (Cons c cs)
  from Cons.prems obtain oc ocs' where
    oc: "SecurityVerifier_run_check e bp c = Inr oc" and
    rest: "run_checks e bp cs = Inr ocs'" and eq: "ocs = oc # ocs'"
    by (auto split: sum.splits)
  from oc have "check oc = c"
    by (auto simp: SecurityVerifier_run_check_def split: sum.splits option.splits if_splits)
  with Cons.IH [OF rest] eq show ?case by simp
qed

lemma points_split:
  "sum_list (map (\<lambda>oc. points (check oc)) ocs) =
     points_with Pass ocs + points_with Fail ocs + points_with Skip ocs"
proof (induction ocs)
  case Nil
  then show ?case by (simp add: points_with_def)
next
  case (Cons oc ocs)
  then show ?case by (cases "result oc") (simp_all add: points_with_def)
qed

lemma points_with_nonneg:
  "\<forall>oc \<in> set ocs. 0 \<le> points (check oc) \<Longrightarrow> 0 \<le> points_with r ocs"
  by (induction ocs) (simp_all add: points_with_def)

lemma calculate_score_fields:
  "SecurityVerifier_calculate_score sv = Inr sc \<Longrightarrow>
     points_total sc = sum_list (map points (checks sv))
     \<and> points_earned sc = points_with Pass (outcomes sv)
     \<and> percentage_of (points_with Pass (outcomes sv)) (sum_list (map points (checks sv)))
         = Inr (percentage sc)"
  by (auto simp: SecurityVerifier_calculate_score_def Let_def split: sum.splits)

text \<open>
  C3 (as the code has it). The denominator of the percentage is the sum of the points of
  all checks of the profile. After \<open>run_all_checks\<close> every check has one outcome, so the
  denominator is the points of the passed, the failed and the skipped checks together: a
  skipped check counts against the percentage as a failed one does. When no check has
  negative points, \<open>calculate_score\<close> returns, and the percentage is the float
  \<open>round((earned / total) * 100, 1)\<close>, or 0 when the total is not positive.
\<close>

theorem percentage_counts_skipped_checks:
  "(SecurityVerifier_calculate_score sv = Inr sc
      \<longrightarrow> points_total sc = sum_list (map points (checks sv))
        \<and> points_earned sc = points_with Pass (outcomes sv))
   \<and> (SecurityVerifier_run_all_checks e sv0 = Inr sv \<and> (\<forall>c \<in> set (checks sv0). 0 \<le> points c)
      \<longrightarrow> (\<exists>sc. SecurityVerifier_calculate_score sv = Inr sc
             \<and> points_earned sc = points_with Pass (outcomes sv)
             \<and> points_total sc =
                 points_with Pass (outcomes sv) + points_with Fail (outcomes sv)
                 + points_with Skip (outcomes sv)
             \<and> percentage sc =
                 (if 0 < points_total sc
                  then Finite (py_round1
                          (fl (fl (of_int (points_earned sc) / of_int (points_total sc)) * 100)))
                  else Finite 0)))
   \<and> (0 \<le> points_with Pass (outcomes sv)
        \<and> points_with Pass (outcomes sv) \<le> sum_list (map points (checks sv))
      \<longrightarrow> (\<exists>sc. SecurityVerifier_calculate_score sv = Inr sc
             \<and> percentage sc =
                 (if 0 < sum_list (map points (checks sv))
                  then Finite (py_round1
                          (fl (fl (of_int (points_with Pass (outcomes sv))
                                   / of_int (sum_list (map points (checks sv)))) * 100)))
                  else Finite 0)))"
proof -
  have pc: "percentage_of P T =
        Inr (if 0 < T then Finite (py_round1 (fl (fl (of_int P / of_int T) * 100))) else Finite 0)"
    if "0 \<le> P" "P \<le> T" for P T
  proof (cases "0 < T")
    case True
    from percentage_of_fraction [OF that True] True show ?thesis by simp
  next
    case False
    then show ?thesis by (simp add: percentage_of_def)
  qed
  have a: "SecurityVerifier_calculate_score sv = Inr sc
      \<longrightarrow> points_total sc = sum_list (map points (checks sv))
        \<and> points_earned sc = points_with Pass (outcomes sv)"
    using calculate_score_fields [of sv sc] by blast
  have b: "\<exists>sc. SecurityVerifier_calculate_score sv = Inr sc
             \<and> points_earned sc = points_with Pass (outcomes sv)
             \<and> points_total sc =
                 points_with Pass (outcomes sv) + points_with Fail (outcomes sv)
                 + points_with Skip (outcomes sv)
             \<and> percentage sc =
                 (if 0 < points_total sc
                  then Finite (py_round1
                          (fl (fl (of_int (points_earned sc) / of_int (points_total sc)) * 100)))
                  else Finite 0)"
    if run: "SecurityVerifier_run_all_checks e sv0 = Inr sv"
      and nn: "\<forall>c \<in> set (checks sv0). 0 \<le> points c"
  proof -
    let ?P = "points_with Pass (outcomes sv)" and ?F = "points_with Fail (outcomes sv)"
      and ?S = "points_with Skip (outcomes sv)" and ?T = "sum_list (map points (checks sv))"
    from run obtain ocs where r: "run_checks e (base_path sv0) (checks sv0) = Inr ocs"
      and sv: "sv = sv0\<lparr>outcomes := ocs\<rparr>"
      by (auto simp: SecurityVerifier_run_all_checks_def split: sum.splits)
    from run_checks_map_check [OF r] sv have m: "map check (outcomes sv) = checks sv" by simp
    have "?T = sum_list (map (\<lambda>oc. points (check oc)) (outcomes sv))"
      unfolding m [symmetric] by (simp add: comp_def)
    then have tot: "?T = ?P + ?F + ?S" by (simp add: points_split)
    from sv have cs: "checks sv = checks sv0" by simp
    from nn have "\<forall>c \<in> set (checks sv). 0 \<le> points c" by (simp only: cs)
    then have "\<forall>c \<in> set (map check (outcomes sv)). 0 \<le> points c" by (simp only: m)
    then have nn': "\<forall>oc \<in> set (outcomes sv). 0 \<le> points (check oc)" by simp
    from points_with_nonneg [OF nn'] have p: "0 \<le> ?P" and f: "0 \<le> ?F" and s: "0 \<le> ?S"
      by blast+
    from tot f s have le: "?P \<le> ?T" by simp
    note pc = pc [OF p le]
    let ?sc = "\<lparr> total_checks = length (checks sv),
                   n_passed = length (filter (\<lambda>oc. result oc = Pass) (outcomes sv)),
                   n_failed = length (filter (\<lambda>oc. result oc = Fail) (outcomes sv)),
                   n_skipped = length (filter (\<lambda>oc. result oc = Skip) (outcomes sv)),
                   points_earned = ?P,
                   points_total = ?T,
                   percentage = (if 0 < ?T
                      then Finite (py_round1 (fl (fl (of_int ?P / of_int ?T) * 100)))
                      else Finite 0) \<rparr>"
    have eq: "SecurityVerifier_calculate_score sv = Inr ?sc"
      by (simp add: SecurityVerifier_calculate_score_def Let_def pc)
    have e1: "points_earned ?sc = ?P" by simp
    have e2: "points_total ?sc = ?P + ?F + ?S" using tot by simp
    have e3: "percentage ?sc =
                 (if 0 < points_total ?sc
                  then Finite (py_round1
                          (fl (fl (of_int (points_earned ?sc) / of_int (points_total ?sc)) * 100)))
                  else Finite 0)" by simp
    from eq e1 e2 e3 show ?thesis by (intro exI conjI)
  qed
  have c: "0 \<le> points_with Pass (outcomes sv)
        \<and> points_with Pass (outcomes sv) \<le> sum_list (map points (checks sv))
      \<longrightarrow> (\<exists>sc. SecurityVerifier_calculate_score sv = Inr sc
             \<and> percentage sc =
                 (if 0 < sum_list (map points (checks sv))
                  then Finite (py_round1
                          (fl (fl (of_int (points_with Pass (outcomes sv))
                                   / of_int (sum_list (map points (checks sv)))) * 100)))
                  else Finite 0))"
  proof
    assume h: "0 \<le> points_with Pass (outcomes sv)
        \<and> points_with Pass (outcomes sv) \<le> sum_list (map points (checks sv))"
    from pc [OF h [THEN conjunct1] h [THEN conjunct2]]
    show "\<exists>sc. SecurityVerifier_calculate_score sv = Inr sc
             \<and> percentage sc =
                 (if 0 < sum_list (map points (checks sv))
                  then Finite (py_round1
                          (fl (fl (of_int (points_with Pass (outcomes sv))
                                   / of_int (sum_list (map points (checks sv)))) * 100)))
                  else Finite 0)"
      by (simp add: SecurityVerifier_calculate_score_def Let_def)
  qed
  from b have b': "SecurityVerifier_run_all_checks e sv0 = Inr sv \<and> (\<forall>c \<in> set (checks sv0). 0 \<le> points c)
      \<longrightarrow> (\<exists>sc. SecurityVerifier_calculate_score sv = Inr sc
             \<and> points_earned sc = points_with Pass (outcomes sv)
             \<and> points_total sc =
                 points_with Pass (outcomes sv) + points_with Fail (outcomes sv)
                 + points_with Skip (outcomes sv)
             \<and> percentage sc =
                 (if 0 < points_total sc
                  then Finite (py_round1
                          (fl (fl (of_int (points_earned sc) / of_int (points_total sc)) * 100)))
                  else Finite 0))"
    by blast
  from a b' c show ?thesis by (intro conjI)
qed

lemma run_noconfig:
  "SecurityVerifier_run_all_checks env_noconfig (SecurityVerifier_init ''/srv/api'') = Inr sv_noconfig"
  by (simp add: SecurityVerifier_run_all_checks_def SecurityVerifier_init_def sv_noconfig_def
      SecurityVerifier_define_checks_def SecurityVerifier_run_check_def SecurityVerifier_read_file_def
      SecurityVerifier_check_pattern_def has_fix_of_def env_noconfig_def os_path_join_def
      startswith_def)

lemma score_noconfig:
  "points_with Pass (outcomes sv_noconfig) = 85 \<and> points_with Fail (outcomes sv_noconfig) = 0
   \<and> points_with Skip (outcomes sv_noconfig) = 15
   \<and> sum_list (map points (checks sv_noconfig)) = 100"
  by (simp add: sv_noconfig_def SecurityVerifier_init_def SecurityVerifier_define_checks_def
      points_with_def)

lemma define_checks_points: "\<forall>c \<in> set SecurityVerifier_define_checks. 0 \<le> points c"
  by (simp add: SecurityVerifier_define_checks_def)

lemma py_round1_85: "py_round1 (fl (fl (85 / 100) * 100)) = 85"
  by code_simp

theorem percentage_counts_skipped_checks_witness:
  "SecurityVerifier_run_all_checks env_noconfig (SecurityVerifier_init ''/srv/api'') = Inr sv_noconfig
   \<and> 0 \<le> points_with Pass (outcomes sv_noconfig)
   \<and> points_with Pass (outcomes sv_noconfig) \<le> sum_list (map points (checks sv_noconfig))
   \<and> (\<exists>sc. SecurityVerifier_calculate_score sv_noconfig = Inr sc
          \<and> points_earned sc = 85
          \<and> points_total sc = 85 + 0 + 15
          \<and> points_total sc = sum_list (map points (checks sv_noconfig))
          \<and> percentage sc = Finite 85)"
proof -
  have nn: "\<forall>c \<in> set (checks (SecurityVerifier_init ''/srv/api'')). 0 \<le> points c"
    using define_checks_points by (simp add: SecurityVerifier_init_def)
  from run_noconfig nn
  have pre: "SecurityVerifier_run_all_checks env_noconfig (SecurityVerifier_init ''/srv/api'') = Inr sv_noconfig
      \<and> (\<forall>c \<in> set (checks (SecurityVerifier_init ''/srv/api'')). 0 \<le> points c)"
    by (rule conjI)
  from percentage_counts_skipped_checks
    [where sv = sv_noconfig and e = env_noconfig and ?sv0.0 = "SecurityVerifier_init ''/srv/api''"
       , THEN conjunct2, THEN conjunct1, THEN mp, OF pre]
  obtain sc where sc: "SecurityVerifier_calculate_score sv_noconfig = Inr sc"
    and pe: "points_earned sc = points_with Pass (outcomes sv_noconfig)"
    and pt: "points_total sc =
                 points_with Pass (outcomes sv_noconfig) + points_with Fail (outcomes sv_noconfig)
                 + points_with Skip (outcomes sv_noconfig)"
    by (elim exE conjE)
  from pe have pe': "points_earned sc = 85" by (simp add: score_noconfig)
  from pt have pt': "points_total sc = 85 + 0 + 15" by (simp add: score_noconfig)
  from percentage_counts_skipped_checks [where sv = sv_noconfig and sc = sc, THEN conjunct1, THEN mp, OF sc]
  have tot: "points_total sc = sum_list (map points (checks sv_noconfig))" by (rule conjunct1)
  have h0: "0 \<le> points_with Pass (outcomes sv_noconfig)"
    and h1: "points_with Pass (outcomes sv_noconfig) \<le> sum_list (map points (checks sv_noconfig))"
    by (simp_all add: score_noconfig)
  from h0 h1 have h: "0 \<le> points_with Pass (outcomes sv_noconfig)
        \<and> points_with Pass (outcomes sv_noconfig) \<le> sum_list (map points (checks sv_noconfig))"
    by (rule conjI)
  from percentage_counts_skipped_checks [where sv = sv_noconfig, THEN conjunct2, THEN conjunct2, THEN mp, OF h]
  obtain sc' where sc': "SecurityVerifier_calculate_score sv_noconfig = Inr sc'"
    and pc: "percentage sc' =
                 (if 0 < sum_list (map points (checks sv_noconfig))
                  then Finite (py_round1
                          (fl (fl (of_int (points_with Pass (outcomes sv_noconfig))
                                   / of_int (sum_list (map points (checks sv_noconfig)))) * 100)))
                  else Finite 0)"
    by (elim exE conjE)
  from sc sc' have same: "sc' = sc" by simp
  have "percentage sc' = Finite (py_round1 (fl (fl (85 / 100) * 100)))"
    unfolding pc by (simp add: score_noconfig)
  then have pc': "percentage sc = Finite 85" by (simp only: py_round1_85 same)
  from sc pe' pt' tot pc' have "\<exists>sc. SecurityVerifier_calculate_score sv_noconfig = Inr sc
          \<and> points_earned sc = 85
          \<and> points_total sc = 85 + 0 + 15
          \<and> points_total sc = sum_list (map points (checks sv_noconfig))
          \<and> percentage sc = Finite 85"
    by (intro exI conjI)
  with run_noconfig h0 h1 show ?thesis by (intro conjI)
qed

text \<open>
  The specification's score leaves skipped checks out of the denominator. With
  \<open>config.py\<close> absent and no vulnerable pattern found in the other files, one check of 15
  points is skipped and six checks with 85 points pass: the specification's percentage is
  100, the code's is 85.
\<close>

theorem percentage_skip_counterexample:
  "SecurityVerifier_run_all_checks env_noconfig (SecurityVerifier_init ''/srv/api'') = Inr sv_noconfig
   \<and> map result (outcomes sv_noconfig) = [Pass, Pass, Pass, Skip, Pass, Pass, Pass]
   \<and> spec_percentage (outcomes sv_noconfig) = 100
   \<and> map_sum str_exn percentage (SecurityVerifier_calculate_score sv_noconfig) = Inr (Finite 85)"
proof -
  have r: "map result (outcomes sv_noconfig) = [Pass, Pass, Pass, Skip, Pass, Pass, Pass]"
    by (simp add: sv_noconfig_def SecurityVerifier_init_def SecurityVerifier_define_checks_def)
  have s: "spec_percentage (outcomes sv_noconfig) = 100"
    by (simp add: spec_percentage_def score_noconfig)
  have "percentage_of 85 100 = Inr (Finite (py_round1 (fl (fl (of_int 85 / of_int 100) * 100))))"
    by (rule percentage_of_fraction) simp_all
  then have "percentage_of 85 100 = Inr (Finite (py_round1 (fl (fl (85 / 100) * 100))))" by simp
  then have pc: "percentage_of 85 100 = Inr (Finite 85)" by (simp only: py_round1_85)
  have p: "map_sum str_exn percentage (SecurityVerifier_calculate_score sv_noconfig) = Inr (Finite 85)"
    by (simp add: SecurityVerifier_calculate_score_def Let_def score_noconfig pc)
  from run_noconfig r s p show ?thesis by (intro conjI)
qed

subsection \<open>Calibrator\<close>

lemma dict_upd_map_of:
  "map_of (dict_upd kvs k f) =
     (map_of kvs)(k \<mapsto> f (case map_of kvs k of
                              None \<Rightarrow> \<lparr>b_total = 0, b_success = 0, b_durations = []\<rparr>
                            | Some v \<Rightarrow> v))"
  by (induction kvs k f rule: dict_upd.induct) (auto simp: fun_eq_iff)

lemma dict_upd_keys:
  "map fst (dict_upd kvs k f) = (if k \<in> fst ` set kvs then map fst kvs else map fst kvs @ [k])"
  by (induction kvs k f rule: dict_upd.induct) auto

lemma buckets_distinct: "distinct (map fst (foldl add_result [] trs))"
  by (induction trs rule: rev_induct) (simp_all add: add_result_def dict_upd_keys)

lemma bucket_of_snoc:
  "bucket_of d (trs @ [r]) =
     (if get_difficulty r = d
      then \<lparr> b_total = b_total (bucket_of d trs) + 1,
             b_success = (if get_success r then b_success (bucket_of d trs) + 1
                          else b_success (bucket_of d trs)),
             b_durations = b_durations (bucket_of d trs) @ [get_duration r] \<rparr>
      else bucket_of d trs)"
  by (simp add: bucket_of_def)

lemma bucket_of_absent:
  "d \<notin> get_difficulty ` set trs \<Longrightarrow>
   bucket_of d trs = \<lparr>b_total = 0, b_success = 0, b_durations = []\<rparr>"
proof -
  assume "d \<notin> get_difficulty ` set trs"
  then have "\<forall>r \<in> set trs. get_difficulty r \<noteq> d" by auto
  then have "filter (\<lambda>r. get_difficulty r = d) trs = []"
    and "filter (\<lambda>r. get_difficulty r = d \<and> get_success r) trs = []"
    by (simp_all add: filter_empty_conv)
  then show ?thesis by (simp add: bucket_of_def)
qed

lemma buckets_map_of:
  "map_of (foldl add_result [] trs) d =
     (if d \<in> get_difficulty ` set trs then Some (bucket_of d trs) else None)"
proof (induction trs arbitrary: d rule: rev_induct)
  case Nil
  then show ?case by simp
next
  case (snoc r trs)
  let ?acc = "foldl add_result [] trs"
  let ?k = "get_difficulty r"
  show ?case
  proof (cases "d = ?k")
    case False
    then show ?thesis
      using snoc.IH by (simp add: add_result_def dict_upd_map_of bucket_of_snoc)
  next
    case True
    have old: "(case map_of ?acc ?k of
                  None \<Rightarrow> \<lparr>b_total = 0, b_success = 0, b_durations = []\<rparr>
                | Some v \<Rightarrow> v) = bucket_of ?k trs"
    proof (cases "?k \<in> get_difficulty ` set trs")
      case True
      with snoc.IH [where d = ?k] \<open>d = ?k\<close> show ?thesis by simp
    next
      case False
      with snoc.IH [where d = ?k] \<open>d = ?k\<close> bucket_of_absent [OF False] show ?thesis by simp
    qed
    have "map_of (foldl add_result [] (trs @ [r])) ?k = Some (bucket_of ?k (trs @ [r]))"
      by (simp add: add_result_def dict_upd_map_of old bucket_of_snoc)
    with True show ?thesis by simp
  qed
qed

lemma bucket_of_perm:
  assumes "mset trs = mset trs'"
  shows "b_total (bucket_of d trs) = b_total (bucket_of d trs')"
    and "b_success (bucket_of d trs) = b_success (bucket_of d trs')"
    and "mset (b_durations (bucket_of d trs)) = mset (b_durations (bucket_of d trs'))"
    and "length (b_durations (bucket_of d trs)) = length (b_durations (bucket_of d trs'))"
proof -
  have f: "mset (filter P trs) = mset (filter P trs')" for P
    using assms by (metis mset_filter)
  have len: "length (filter P trs) = length (filter P trs')" for P
    using f [of P] by (metis size_mset)
  show "b_total (bucket_of d trs) = b_total (bucket_of d trs')"
    by (simp add: bucket_of_def len)
  show "b_success (bucket_of d trs) = b_success (bucket_of d trs')"
    by (simp add: bucket_of_def len)
  show "length (b_durations (bucket_of d trs)) = length (b_durations (bucket_of d trs'))"
    by (simp add: bucket_of_def len)
  have "mset (map get_duration (filter (\<lambda>r. get_difficulty r = d) trs)) =
        mset (map get_duration (filter (\<lambda>r. get_difficulty r = d) trs'))"
    using f [of "\<lambda>r. get_difficulty r = d"] by (metis mset_map)
  then show "mset (b_durations (bucket_of d trs)) = mset (b_durations (bucket_of d trs'))"
    by (simp add: bucket_of_def)
qed

lemma finish_counts_perm:
  assumes "mset trs = mset trs'"
  shows "counts_view (finish fsum (bucket_of d trs)) = counts_view (finish fsum (bucket_of d trs'))"
  by (simp add: counts_view_def finish_def bucket_of_perm(1,2) [OF assms, of d])

lemma finish_view_perm:
  assumes "mset trs = mset trs'"
    and "fsum (b_durations (bucket_of d trs)) = fsum (b_durations (bucket_of d trs'))"
  shows "stats_view (finish fsum (bucket_of d trs)) = stats_view (finish fsum (bucket_of d trs'))"
proof -
  note p = bucket_of_perm [OF assms(1), of d]
  have e: "b_durations (bucket_of d trs) = [] \<longleftrightarrow> b_durations (bucket_of d trs') = []"
    using p(4) by (metis length_0_conv)
  show ?thesis
    by (simp add: stats_view_def finish_def p(1,2,4) e assms(2))
qed

lemma bucket_durations:
  "b_durations (bucket_of d trs) = map get_duration (filter (\<lambda>r. get_difficulty r = d) trs)"
  by (simp add: bucket_of_def)

lemma bucket_durations_nonempty:
  "d \<in> get_difficulty ` set trs \<Longrightarrow> b_durations (bucket_of d trs) \<noteq> []"
  by (auto simp: bucket_of_def filter_empty_conv)

lemma map_of_map_values:
  "map_of (map (\<lambda>item. (fst item, f (snd item))) xs) k = map_option f (map_of xs k)"
  by (induction xs) auto

lemma by_difficulty_map_of:
  "map_of (by_difficulty (analyze_results pct fsum trs)) d =
     (if d \<in> get_difficulty ` set trs then Some (finish fsum (bucket_of d trs)) else None)"
  by (simp add: analyze_results_def Let_def map_of_map_values buckets_map_of)

lemma by_difficulty_distinct: "distinct (map fst (by_difficulty (analyze_results pct fsum trs)))"
  using buckets_distinct [of trs] by (simp add: analyze_results_def Let_def comp_def)

lemma by_difficulty_keys:
  "fst ` set (by_difficulty (analyze_results pct fsum trs)) = get_difficulty ` set trs"
proof -
  have "fst ` set (by_difficulty (analyze_results pct fsum trs)) =
          dom (map_of (by_difficulty (analyze_results pct fsum trs)))"
    by (simp add: dom_map_of_conv_image_fst)
  also have "\<dots> = get_difficulty ` set trs"
    by (auto simp: by_difficulty_map_of dom_def)
  finally show ?thesis .
qed

lemma by_difficulty_items:
  "item \<in> set (by_difficulty (analyze_results pct fsum trs)) \<longleftrightarrow>
     fst item \<in> get_difficulty ` set trs \<and> snd item = finish fsum (bucket_of (fst item) trs)"
proof -
  have "item \<in> set (by_difficulty (analyze_results pct fsum trs)) \<longleftrightarrow>
          map_of (by_difficulty (analyze_results pct fsum trs)) (fst item) = Some (snd item)"
    using map_of_eq_Some_iff [OF by_difficulty_distinct, of pct fsum trs "fst item" "snd item"] by simp
  then show ?thesis by (auto simp: by_difficulty_map_of)
qed

lemma bucket_recommendations_rate:
  "success_rate (snd a) = success_rate (snd b) \<Longrightarrow> fst a = fst b \<Longrightarrow>
   bucket_recommendations pct a = bucket_recommendations pct b"
  by (simp add: bucket_recommendations_def)

lemma overall_perm:
  assumes "mset trs = mset trs'"
  shows "length trs = length trs'" and "length (filter get_success trs) = length (filter get_success trs')"
    and "mset (map get_duration trs) = mset (map get_duration trs')"
    and "trs = [] \<longleftrightarrow> trs' = []"
proof -
  show l: "length trs = length trs'" using assms by (metis size_mset)
  have "mset (filter get_success trs) = mset (filter get_success trs')"
    using assms by (metis mset_filter)
  then show "length (filter get_success trs) = length (filter get_success trs')"
    by (metis size_mset)
  show "mset (map get_duration trs) = mset (map get_duration trs')"
    using assms by (metis mset_map)
  from l show "trs = [] \<longleftrightarrow> trs' = []" by (metis length_0_conv)
qed

lemma recommendations_eq:
  "recommendations (analyze_results pct fsum trs) =
     overall_recommendations (report_success_rate (analyze_results pct fsum trs))
     @ concat (map (bucket_recommendations pct) (by_difficulty (analyze_results pct fsum trs)))"
  by (simp add: analyze_results_def Let_def)

lemma recommendations_set:
  "set (recommendations (analyze_results pct fsum trs)) =
     set (overall_recommendations (report_success_rate (analyze_results pct fsum trs)))
     \<union> (\<Union>item \<in> set (by_difficulty (analyze_results pct fsum trs)). set (bucket_recommendations pct item))"
  by (simp add: recommendations_eq)

lemma bucket_recommendations_perm:
  assumes "mset trs = mset trs'"
  shows "(\<Union>item \<in> set (by_difficulty (analyze_results pct fsum trs)). set (bucket_recommendations pct item))
       \<subseteq> (\<Union>item \<in> set (by_difficulty (analyze_results pct fsum trs')). set (bucket_recommendations pct item))"
proof
  fix x
  assume "x \<in> (\<Union>item \<in> set (by_difficulty (analyze_results pct fsum trs)). set (bucket_recommendations pct item))"
  then obtain item where it: "item \<in> set (by_difficulty (analyze_results pct fsum trs))"
    and x: "x \<in> set (bucket_recommendations pct item)" by blast
  from it have k: "fst item \<in> get_difficulty ` set trs"
    and v: "snd item = finish fsum (bucket_of (fst item) trs)"
    by (simp_all add: by_difficulty_items)
  let ?item' = "(fst item, finish fsum (bucket_of (fst item) trs'))"
  from assms have "set trs = set trs'" by (metis set_mset_mset)
  with k have k': "fst item \<in> get_difficulty ` set trs'" by simp
  have mem: "?item' \<in> set (by_difficulty (analyze_results pct fsum trs'))"
    unfolding by_difficulty_items using k' by simp
  have "counts_view (finish fsum (bucket_of (fst item) trs)) = counts_view (finish fsum (bucket_of (fst item) trs'))"
    by (rule finish_counts_perm [OF assms])
  then have "success_rate (finish fsum (bucket_of (fst item) trs)) = success_rate (finish fsum (bucket_of (fst item) trs'))"
    by (simp only: counts_view_def prod.inject)
  with v have "success_rate (snd item) = success_rate (snd ?item')" by simp
  then have "bucket_recommendations pct item = bucket_recommendations pct ?item'"
    by (rule bucket_recommendations_rate) simp
  with x have x': "x \<in> set (bucket_recommendations pct ?item')" by simp
  from mem x' show "x \<in> (\<Union>item \<in> set (by_difficulty (analyze_results pct fsum trs')). set (bucket_recommendations pct item))"
    by (rule UN_I)
qed

text \<open>
  C7 (as the code has it). For two lists of records that are permutations of each other,
  \<open>analyze_results\<close> gives the same buckets (the same difficulty keys, one entry per
  key), in each bucket the same \<open>total\<close>, \<open>success\<close> and \<open>success_rate\<close>, the same
  overall counts and rate, and the same set of recommendations, whatever the summation of
  durations does. The \<open>durations\<close> of a bucket are those of its records in the order of
  the input, and \<open>avg_duration\<close> is the float quotient of their sum by their number: it
  is the same in both reports when the sum of the bucket's durations is the same in both
  orders, and so is the overall average. The order of the entries of \<open>by_difficulty\<close> and
  of the recommendation list follows the order of the input.
\<close>

theorem analyze_results_order_independent:
  assumes "mset trs = mset trs'"
  shows "fst ` set (by_difficulty (analyze_results pct fsum trs))
           = fst ` set (by_difficulty (analyze_results pct fsum trs'))
       \<and> distinct (map fst (by_difficulty (analyze_results pct fsum trs)))
       \<and> distinct (map fst (by_difficulty (analyze_results pct fsum trs')))
       \<and> (\<forall>d. map_option counts_view (map_of (by_difficulty (analyze_results pct fsum trs)) d)
              = map_option counts_view (map_of (by_difficulty (analyze_results pct fsum trs')) d))
       \<and> set (recommendations (analyze_results pct fsum trs))
           = set (recommendations (analyze_results pct fsum trs'))
       \<and> total_tasks (analyze_results pct fsum trs) = total_tasks (analyze_results pct fsum trs')
       \<and> successful_tasks (analyze_results pct fsum trs)
           = successful_tasks (analyze_results pct fsum trs')
       \<and> failed_tasks (analyze_results pct fsum trs) = failed_tasks (analyze_results pct fsum trs')
       \<and> report_success_rate (analyze_results pct fsum trs)
           = report_success_rate (analyze_results pct fsum trs')
       \<and> (\<forall>d st. map_of (by_difficulty (analyze_results pct fsum trs)) d = Some st \<longrightarrow>
              b_durations st = map get_duration (filter (\<lambda>r. get_difficulty r = d) trs)
              \<and> avg_duration st = fl (fsum (b_durations st) / of_nat (length (b_durations st))))
       \<and> (\<forall>d. fsum (map get_duration (filter (\<lambda>r. get_difficulty r = d) trs))
                 = fsum (map get_duration (filter (\<lambda>r. get_difficulty r = d) trs'))
              \<longrightarrow> map_option stats_view (map_of (by_difficulty (analyze_results pct fsum trs)) d)
                  = map_option stats_view (map_of (by_difficulty (analyze_results pct fsum trs')) d))
       \<and> (fsum (map get_duration trs) = fsum (map get_duration trs')
            \<longrightarrow> average_duration (analyze_results pct fsum trs)
                = average_duration (analyze_results pct fsum trs'))"
proof -
  from assms have sets: "set trs = set trs'" by (metis set_mset_mset)
  note o = overall_perm [OF assms]
  have keys: "fst ` set (by_difficulty (analyze_results pct fsum trs))
           = fst ` set (by_difficulty (analyze_results pct fsum trs'))"
    by (simp add: by_difficulty_keys sets)
  have counts: "\<forall>d. map_option counts_view (map_of (by_difficulty (analyze_results pct fsum trs)) d)
              = map_option counts_view (map_of (by_difficulty (analyze_results pct fsum trs')) d)"
    by (simp add: by_difficulty_map_of sets finish_counts_perm [OF assms])
  have rate: "report_success_rate (analyze_results pct fsum trs)
                = report_success_rate (analyze_results pct fsum trs')"
    by (simp add: analyze_results_def Let_def o(1,2,4))
  have per_bucket:
    "(\<Union>item \<in> set (by_difficulty (analyze_results pct fsum trs)). set (bucket_recommendations pct item))
     = (\<Union>item \<in> set (by_difficulty (analyze_results pct fsum trs')). set (bucket_recommendations pct item))"
    by (rule equalityI [OF bucket_recommendations_perm [OF assms]
          bucket_recommendations_perm [OF assms [symmetric]]])
  have recs: "set (recommendations (analyze_results pct fsum trs))
           = set (recommendations (analyze_results pct fsum trs'))"
    by (simp only: recommendations_set rate per_bucket)
  have tt: "total_tasks (analyze_results pct fsum trs) = total_tasks (analyze_results pct fsum trs')"
    and st: "successful_tasks (analyze_results pct fsum trs)
               = successful_tasks (analyze_results pct fsum trs')"
    and ft: "failed_tasks (analyze_results pct fsum trs) = failed_tasks (analyze_results pct fsum trs')"
    by (simp_all add: analyze_results_def Let_def o(1,2))
  have durs: "\<forall>d st. map_of (by_difficulty (analyze_results pct fsum trs)) d = Some st \<longrightarrow>
              b_durations st = map get_duration (filter (\<lambda>r. get_difficulty r = d) trs)
              \<and> avg_duration st = fl (fsum (b_durations st) / of_nat (length (b_durations st)))"
  proof (intro allI impI)
    fix d st
    assume h: "map_of (by_difficulty (analyze_results pct fsum trs)) d = Some st"
    then have d: "d \<in> get_difficulty ` set trs" and s: "st = finish fsum (bucket_of d trs)"
      by (simp_all add: by_difficulty_map_of split: if_splits)
    from s have b: "b_durations st = b_durations (bucket_of d trs)" by (simp add: finish_def)
    from bucket_durations_nonempty [OF d] s
    have a: "avg_duration st = fl (fsum (b_durations st) / of_nat (length (b_durations st)))"
      by (simp add: finish_def)
    from b a show "b_durations st = map get_duration (filter (\<lambda>r. get_difficulty r = d) trs)
              \<and> avg_duration st = fl (fsum (b_durations st) / of_nat (length (b_durations st)))"
      by (simp add: bucket_durations)
  qed
  have views: "\<forall>d. fsum (map get_duration (filter (\<lambda>r. get_difficulty r = d) trs))
                 = fsum (map get_duration (filter (\<lambda>r. get_difficulty r = d) trs'))
              \<longrightarrow> map_option stats_view (map_of (by_difficulty (analyze_results pct fsum trs)) d)
                  = map_option stats_view (map_of (by_difficulty (analyze_results pct fsum trs')) d)"
  proof (intro allI impI)
    fix d
    assume "fsum (map get_duration (filter (\<lambda>r. get_difficulty r = d) trs))
                 = fsum (map get_duration (filter (\<lambda>r. get_difficulty r = d) trs'))"
    then have "fsum (b_durations (bucket_of d trs)) = fsum (b_durations (bucket_of d trs'))"
      by (simp only: bucket_durations)
    from finish_view_perm [OF assms this]
    show "map_option stats_view (map_of (by_difficulty (analyze_results pct fsum trs)) d)
                  = map_option stats_view (map_of (by_difficulty (analyze_results pct fsum trs')) d)"
      by (simp add: by_difficulty_map_of sets)
  qed
  have avg: "fsum (map get_duration trs) = fsum (map get_duration trs')
            \<longrightarrow> average_duration (analyze_results pct fsum trs)
                = average_duration (analyze_results pct fsum trs')"
    by (simp add: analyze_results_def Let_def o(1,4))
  from keys by_difficulty_distinct [of pct fsum trs] by_difficulty_distinct [of pct fsum trs']
    counts recs tt st ft rate durs views avg
  show ?thesis by (intro conjI)
qed

lemma py_sum_example: "py_sum [25 / 2, 40, 25 / 2] = py_sum [40, 25 / 2, 25 / 2]"
  by code_simp

theorem analyze_results_order_independent_witness:
  "mset [tr_easy_ok, tr_hard_fail, tr_easy_ok] = mset [tr_hard_fail, tr_easy_ok, tr_easy_ok]
   \<and> map fst (by_difficulty (analyze_results format_percent py_sum [tr_easy_ok, tr_hard_fail, tr_easy_ok]))
       = [''easy'', ''hard'']
   \<and> map fst (by_difficulty (analyze_results format_percent py_sum [tr_hard_fail, tr_easy_ok, tr_easy_ok]))
       = [''hard'', ''easy'']
   \<and> py_sum (map get_duration (filter (\<lambda>r. get_difficulty r = ''easy'') [tr_easy_ok, tr_hard_fail, tr_easy_ok]))
       = py_sum (map get_duration (filter (\<lambda>r. get_difficulty r = ''easy'') [tr_hard_fail, tr_easy_ok, tr_easy_ok]))
   \<and> map_option stats_view
        (map_of (by_difficulty (analyze_results format_percent py_sum [tr_easy_ok, tr_hard_fail, tr_easy_ok])) ''easy'')
       = map_option stats_view
        (map_of (by_difficulty (analyze_results format_percent py_sum [tr_hard_fail, tr_easy_ok, tr_easy_ok])) ''easy'')
   \<and> py_sum (map get_duration [tr_easy_ok, tr_hard_fail, tr_easy_ok])
       = py_sum (map get_duration [tr_hard_fail, tr_easy_ok, tr_easy_ok])
   \<and> average_duration (analyze_results format_percent py_sum [tr_easy_ok, tr_hard_fail, tr_easy_ok])
       = average_duration (analyze_results format_percent py_sum [tr_hard_fail, tr_easy_ok, tr_easy_ok])
   \<and> set (recommendations (analyze_results format_percent py_sum [tr_easy_ok, tr_hard_fail, tr_easy_ok]))
       = set (recommendations (analyze_results format_percent py_sum [tr_hard_fail, tr_easy_ok, tr_easy_ok]))"
proof -
  have m: "mset [tr_easy_ok, tr_hard_fail, tr_easy_ok] = mset [tr_hard_fail, tr_easy_ok, tr_easy_ok]"
    by (simp add: add_mset_commute)
  have k1: "map fst (by_difficulty (analyze_results format_percent py_sum [tr_easy_ok, tr_hard_fail, tr_easy_ok]))
       = [''easy'', ''hard'']"
    by (simp add: analyze_results_def Let_def add_result_def get_difficulty_def tr_easy_ok_def
        tr_hard_fail_def)
  have k2: "map fst (by_difficulty (analyze_results format_percent py_sum [tr_hard_fail, tr_easy_ok, tr_easy_ok]))
       = [''hard'', ''easy'']"
    by (simp add: analyze_results_def Let_def add_result_def get_difficulty_def tr_easy_ok_def
        tr_hard_fail_def)
  have s1: "py_sum (map get_duration (filter (\<lambda>r. get_difficulty r = ''easy'') [tr_easy_ok, tr_hard_fail, tr_easy_ok]))
       = py_sum (map get_duration (filter (\<lambda>r. get_difficulty r = ''easy'') [tr_hard_fail, tr_easy_ok, tr_easy_ok]))"
    by (simp add: get_difficulty_def tr_easy_ok_def tr_hard_fail_def)
  have s2: "py_sum (map get_duration [tr_easy_ok, tr_hard_fail, tr_easy_ok])
       = py_sum (map get_duration [tr_hard_fail, tr_easy_ok, tr_easy_ok])"
    using py_sum_example by (simp add: get_duration_def tr_easy_ok_def tr_hard_fail_def)
  note t = analyze_results_order_independent [OF m, of format_percent py_sum]
  note r = t [THEN conjunct2, THEN conjunct2, THEN conjunct2, THEN conjunct2, THEN conjunct1]
  note t9 = t [THEN conjunct2, THEN conjunct2, THEN conjunct2, THEN conjunct2, THEN conjunct2,
      THEN conjunct2, THEN conjunct2, THEN conjunct2, THEN conjunct2, THEN conjunct2]
  note v = t9 [THEN conjunct1, THEN spec, of "''easy''", THEN mp, OF s1]
  note a = t9 [THEN conjunct2, THEN mp, OF s2]
  from m k1 k2 s1 v s2 a r show ?thesis by (intro conjI)
qed

text \<open>
  The average duration depends on the order of the records. With the durations 0.1, 0.2,
  0.3 and 0.4 of four easy tasks, the float sum from left to right is 1.0 and the average
  0.25; in the reverse order the sum is 0.9999999999999999 and the average
  0.24999999999999997.
\<close>

lemma avg_tenths:
  "avg_duration (finish py_sum (bucket_of ''easy'' trs_tenths)) = 1 / 4"
  "avg_duration (finish py_sum (bucket_of ''easy'' (rev trs_tenths)))
     = 9007199254740991 / 36028797018963968"
  "fl (py_sum (map get_duration trs_tenths) / 4) = 1 / 4"
  "fl (py_sum (map get_duration (rev trs_tenths)) / 4) = 9007199254740991 / 36028797018963968"
  by code_simp+

lemma tenths_difficulty: "get_difficulty ` set trs_tenths = {''easy''}"
  by (auto simp: trs_tenths_def tr_easy_lasting_def get_difficulty_def)

theorem avg_duration_order_counterexample:
  "mset (rev trs_tenths) = mset trs_tenths
   \<and> map_option avg_duration
       (map_of (by_difficulty (analyze_results format_percent py_sum trs_tenths)) ''easy'')
       = Some (1 / 4)
   \<and> map_option avg_duration
       (map_of (by_difficulty (analyze_results format_percent py_sum (rev trs_tenths))) ''easy'')
       = Some (9007199254740991 / 36028797018963968)
   \<and> average_duration (analyze_results format_percent py_sum trs_tenths) = 1 / 4
   \<and> average_duration (analyze_results format_percent py_sum (rev trs_tenths))
       = 9007199254740991 / 36028797018963968"
proof -
  have m: "mset (rev trs_tenths) = mset trs_tenths" by simp
  have len: "length trs_tenths = 4" "trs_tenths \<noteq> []" by (simp_all add: trs_tenths_def)
  have b1: "map_option avg_duration
       (map_of (by_difficulty (analyze_results format_percent py_sum trs_tenths)) ''easy'')
       = Some (1 / 4)"
    by (simp add: by_difficulty_map_of tenths_difficulty avg_tenths)
  have b2: "map_option avg_duration
       (map_of (by_difficulty (analyze_results format_percent py_sum (rev trs_tenths))) ''easy'')
       = Some (9007199254740991 / 36028797018963968)"
    by (simp add: by_difficulty_map_of tenths_difficulty avg_tenths)
  have a1: "average_duration (analyze_results format_percent py_sum trs_tenths) = 1 / 4"
    using avg_tenths(3) by (simp add: analyze_results_def Let_def len)
  have a2: "average_duration (analyze_results format_percent py_sum (rev trs_tenths))
       = 9007199254740991 / 36028797018963968"
    using avg_tenths(4) by (simp add: analyze_results_def Let_def len rev_map)
  from m b1 b2 a1 a2 show ?thesis by (intro conjI)
qed

subsection \<open>The scenarios of the specification\<close>

text \<open>
  Outcomes \<open>[{passed: true, required: true}, {passed: false, required: false}]\<close>: score
  50, one required outcome, passed, and status FAIL.
\<close>

lemma fifty_percent: "fl (fl (1 / 2) * 100) = 50" "py_round1 50 = 50"
  by code_simp+

lemma scenario_half_passed:
  "SolutionVerifier_calculate_score
     [\<lparr>name = ''a'', description = [], passed = True, required = True, message = []\<rparr>,
      \<lparr>name = ''b'', description = [], passed = False, required = False, message = []\<rparr>] =
   \<lparr> ac_total = 2, ac_passed = 1, ac_failed = 1, ac_score_percentage = 50,
     rc_total = 1, rc_passed = 1, rc_all_passed = True, overall_status = FAIL,
     details =
       [\<lparr>name = ''a'', description = [], passed = True, required = True, message = []\<rparr>,
        \<lparr>name = ''b'', description = [], passed = False, required = False, message = []\<rparr>] \<rparr>"
  by (simp add: SolutionVerifier_calculate_score_def auto_score_def all_required_passed_def
      fifty_percent Let_def)

text \<open>
  An \<open>output_contains\<close> check with target \<open>cat analysis.txt\<close>, a file containing
  \<open>status_code: 502\<close> and \<open>expected = "502"\<close> passes.
\<close>

lemma scenario_cat_analysis:
  "SolutionVerifier_execute_check env_analysis ''sol'' ''output_contains'' ''cat analysis.txt'' ''502'' =
     Inr \<lparr> name = ''output_contains_cat analysis.txt'',
           description = ''output_contains check for cat analysis.txt'',
           passed = True, required = False,
           message = sq @ ''502'' @ sq @ '' found: True'' \<rparr>"
proof -
  have c: "looks_like_command ''cat analysis.txt''"
    using looks_like_command_cat [of "''analysis.txt''"] by simp
  have r: "run_shell env_analysis ''cat analysis.txt'' = Completed ''status_code: 502'' []"
    by (simp add: env_analysis_def)
  have l: "contains (lower ''502'') (lower ''status_code: 502'')"
    by (simp add: lower_def lower_char_def)
  from output_contains_command_output [OF c r, of "''sol''" "''502''"] l
  show ?thesis by (simp add: initial_result_def str_bool_def)
qed

text \<open>
  Ten records of difficulty \<open>easy\<close>, nine of them successes: the bucket's rate is the
  float 0.9, so no flag for easy tasks, and the overall rate 0.9 gives the two lines for
  tasks that are too easy.
\<close>

lemma rate_nine_of_ten:
  "overall_recommendations (fl (9 / 10)) =
     [''Tasks are too easy - increase difficulty factors'',
      ''Consider adding more traps and edge cases'']"
  "\<not> fl (9 / 10) < fl (7 / 10)"
  by code_simp+

lemma scenario_nine_of_ten:
  "recommendations (analyze_results pct fsum
     (replicate 9 \<lparr>difficulty = Some ''easy'', success = Some True, duration_seconds = Some 1\<rparr>
      @ [\<lparr>difficulty = Some ''easy'', success = Some False, duration_seconds = Some 1\<rparr>])) =
   [''Tasks are too easy - increase difficulty factors'',
    ''Consider adding more traps and edge cases'']"
proof -
  let ?ok = "\<lparr>difficulty = Some ''easy'', success = Some True, duration_seconds = Some 1\<rparr>"
  let ?ko = "\<lparr>difficulty = Some ''easy'', success = Some False, duration_seconds = Some 1\<rparr>"
  let ?trs = "replicate 9 ?ok @ [?ko]"
  have d: "get_difficulty ` set ?trs = {''easy''}"
    by (auto simp: get_difficulty_def)
  have rate: "report_success_rate (analyze_results pct fsum ?trs) = fl (9 / 10)"
    by (simp add: analyze_results_def Let_def get_success_def)
  have b: "bucket_of ''easy'' ?trs =
      \<lparr>b_total = 10, b_success = 9, b_durations = replicate 9 1 @ [1]\<rparr>"
    by (simp add: bucket_of_def get_difficulty_def get_success_def get_duration_def)
  have dist: "distinct (map fst (by_difficulty (analyze_results pct fsum ?trs)))"
    by (rule by_difficulty_distinct)
  have keys: "set (map fst (by_difficulty (analyze_results pct fsum ?trs))) = {''easy''}"
    using by_difficulty_keys [of pct fsum ?trs] d by simp
  from distinct_card [OF dist] keys
  have "length (by_difficulty (analyze_results pct fsum ?trs)) = 1" by simp
  then obtain item where it: "by_difficulty (analyze_results pct fsum ?trs) = [item]"
    by (cases "by_difficulty (analyze_results pct fsum ?trs)") auto
  with keys have "fst item = ''easy''" by simp
  with it obtain st where one: "by_difficulty (analyze_results pct fsum ?trs) = [(''easy'', st)]"
    by (cases item) simp
  then have "(''easy'', st) \<in> set (by_difficulty (analyze_results pct fsum ?trs))" by simp
  then have "st = finish fsum (bucket_of ''easy'' ?trs)"
    by (simp add: by_difficulty_items)
  with b have sr: "success_rate st = fl (9 / 10)" by (simp add: finish_def)
  have "bucket_recommendations pct (''easy'', st) = []"
    using sr rate_nine_of_ten(2)
    by (simp add: bucket_recommendations_def lower_def lower_char_def)
  with one rate show ?thesis
    by (simp only: recommendations_eq rate_nine_of_ten(1)) simp
qed

end
